theory Spec2Isabelle
  imports Main
begin

section \<open>Talker.js: a handshaking, queueing request/response channel over postMessage\<close>

text \<open>
  A shallow embedding of \<^verbatim>\<open>src/talker.js\<close>. Every prototype method of \<^verbatim>\<open>Talker\<close> becomes a
  function that takes the channel state and returns the new one. A leading underscore of the
  source (\<^verbatim>\<open>_queue\<close>, \<^verbatim>\<open>_flushQueue\<close>) is written \<open>u_\<close>, since an Isabelle name cannot start
  with an underscore.

  What the platform does is not part of the source and is modelled by its outcome:
  \<^item> \<^verbatim>\<open>remoteWindow.postMessage(JSON.stringify(data), remoteOrigin)\<close> appends the object handed to
    \<^verbatim>\<open>JSON.stringify\<close> together with the target origin to the log \<open>posted\<close>;
  \<^item> \<^verbatim>\<open>JSON.parse(messageEvent.data)\<close> is taken with its outcome, which the event carries;
  \<^item> a call of \<^verbatim>\<open>onMessage\<close> appends the message to the log \<open>delivered\<close> (the handler is the
    application's and is taken to return normally);
  \<^item> the promise returned by \<^verbatim>\<open>send\<close> is an entry of \<open>futures\<close>, keyed by the id of the message
    that the call constructed;
  \<^item> \<^verbatim>\<open>setTimeout(callback, delay)\<close> adds a timer, due \<open>delay\<close> milliseconds after the current
    time \<open>clock\<close>, to the list \<open>timers\<close>; the platform runs the callback, \<open>timeout_fires\<close>, when
    time reaches that point (\<open>advance\<close>).
  The id counter is a \<open>nat\<close>, which is what a JavaScript number is below \<open>2^53\<close>.
\<close>

subsection \<open>JavaScript values\<close>

text \<open>
  A number is \<open>JNum n\<close> when it is the integer \<open>n\<close> and of magnitude below \<open>10^21\<close>, the
  numbers that \<^verbatim>\<open>Number::toString\<close> prints as decimal numerals. Every other number (a fraction,
  or of magnitude \<open>10^21\<close> and more) is \<open>JReal s\<close>, given by the string \<open>s\<close> that
  \<^verbatim>\<open>Number::toString\<close> prints for it, such as \<^verbatim>\<open>0.5\<close> or \<^verbatim>\<open>1e+21\<close>; such a number is not zero.
\<close>

datatype jsval =
    JUndefined
  | JNull
  | JBool bool
  | JNum int
  | JReal string
  | JStr string
  | JArr "jsval list"
  | JObj "(string \<times> jsval) list"

datatype js_error = TypeError

text \<open>ToBoolean, as used by \<^verbatim>\<open>if (x)\<close>, \<^verbatim>\<open>x ? a : b\<close>, \<^verbatim>\<open>!x\<close> and \<^verbatim>\<open>x || y\<close>.\<close>

fun truthy :: "jsval \<Rightarrow> bool" where
  "truthy JUndefined = False"
| "truthy JNull = False"
| "truthy (JBool b) = b"
| "truthy (JNum n) = (n \<noteq> 0)"
| "truthy (JReal s) = True"
| "truthy (JStr s) = (s \<noteq> [])"
| "truthy (JArr xs) = True"
| "truthy (JObj kvs) = True"

text \<open>\<^verbatim>\<open>a || b\<close> gives \<open>a\<close> when it is truthy and \<open>b\<close> otherwise.\<close>

definition js_or :: "jsval \<Rightarrow> jsval \<Rightarrow> jsval" where
  "js_or a b = (if truthy a then a else b)"

text \<open>
  \<^verbatim>\<open>object.name\<close> for the envelope's field names (\<^verbatim>\<open>type\<close>, \<^verbatim>\<open>handshake\<close>,
  \<^verbatim>\<open>handshakeConfirmation\<close>, \<^verbatim>\<open>namespace\<close>, \<^verbatim>\<open>data\<close>, \<^verbatim>\<open>id\<close>, \<^verbatim>\<open>responseToId\<close>), none of which
  any built-in prototype defines: the own property of an object, \<^verbatim>\<open>undefined\<close> where there is
  none and on a boolean, number, string or array, and a TypeError on \<^verbatim>\<open>null\<close> and
  \<^verbatim>\<open>undefined\<close>. The association list holds each own property once.
\<close>

fun get_prop :: "jsval \<Rightarrow> string \<Rightarrow> js_error + jsval" where
  "get_prop JUndefined name = Inl TypeError"
| "get_prop JNull name = Inl TypeError"
| "get_prop (JObj kvs) name = Inr (case map_of kvs name of None \<Rightarrow> JUndefined | Some v \<Rightarrow> v)"
| "get_prop v name = Inr JUndefined"

text \<open>The same read where it cannot throw, the object having been read from before.\<close>

definition field :: "jsval \<Rightarrow> string \<Rightarrow> jsval" where
  "field object name = (case get_prop object name of Inl e \<Rightarrow> JUndefined | Inr v \<Rightarrow> v)"

text \<open>\<^verbatim>\<open>Number::toString\<close> of an integer of magnitude below \<open>10^21\<close>: its decimal numeral.\<close>

fun dec_digits :: "nat \<Rightarrow> string" where
  "dec_digits n =
     (if n < 10 then [char_of (48 + n)] else dec_digits (n div 10) @ [char_of (48 + n mod 10)])"

declare dec_digits.simps [simp del]

definition Number_toString :: "int \<Rightarrow> string" where
  "Number_toString i = (if i < 0 then CHR ''-'' # dec_digits (nat (- i)) else dec_digits (nat i))"

text \<open>
  ToPropertyKey, as applied by \<^verbatim>\<open>this._sent[id]\<close> to a value that \<^verbatim>\<open>JSON.parse\<close> returned.
  A primitive is printed. An object is converted by OrdinaryToPrimitive with hint string: an
  own property \<^verbatim>\<open>toString\<close> of a parsed object is never callable and hides the inherited
  method, and \<^verbatim>\<open>valueOf\<close>, own or inherited, gives no primitive either, so the conversion
  throws a TypeError; without an own \<^verbatim>\<open>toString\<close> the inherited one prints
  \<^verbatim>\<open>[object Object]\<close>. An array is printed by \<^verbatim>\<open>Array.prototype.join\<close>: the elements, \<^verbatim>\<open>null\<close>
  and \<^verbatim>\<open>undefined\<close> as the empty string, separated by commas; the first element whose
  conversion throws makes the whole conversion throw.
\<close>

fun join_comma :: "string list \<Rightarrow> string" where
  "join_comma [] = []"
| "join_comma [s] = s"
| "join_comma (s # ss) = s @ '','' @ join_comma ss"

fun all_or_error :: "(js_error + string) list \<Rightarrow> js_error + string list" where
  "all_or_error [] = Inr []"
| "all_or_error (Inl e # rs) = Inl e"
| "all_or_error (Inr s # rs) = (case all_or_error rs of Inl e \<Rightarrow> Inl e | Inr ss \<Rightarrow> Inr (s # ss))"

fun ToPropertyKey :: "jsval \<Rightarrow> js_error + string" where
  "ToPropertyKey JUndefined = Inr ''undefined''"
| "ToPropertyKey JNull = Inr ''null''"
| "ToPropertyKey (JBool b) = Inr (if b then ''true'' else ''false'')"
| "ToPropertyKey (JNum n) = Inr (Number_toString n)"
| "ToPropertyKey (JReal s) = Inr s"
| "ToPropertyKey (JStr s) = Inr s"
| "ToPropertyKey (JArr xs) =
     (case all_or_error
             (map (\<lambda>x. if x = JNull \<or> x = JUndefined then Inr [] else ToPropertyKey x) xs) of
        Inl e \<Rightarrow> Inl e
      | Inr ss \<Rightarrow> Inr (join_comma ss))"
| "ToPropertyKey (JObj kvs) =
     (if ''toString'' \<in> set (map fst kvs) then Inl TypeError else Inr ''[object Object]'')"

subsection \<open>Constants\<close>

definition TALKER_TYPE :: string where
  "TALKER_TYPE = ''application/x-talkerjs-v1+json''"

definition TALKER_ERR_TIMEOUT :: string where
  "TALKER_ERR_TIMEOUT = ''timeout''"

subsection \<open>Messages\<close>

text \<open>
  \<^verbatim>\<open>Talker.OutgoingMessage\<close> and \<^verbatim>\<open>Talker.IncomingMessage\<close>. The field \<^verbatim>\<open>talker\<close> is the channel
  the functions below are given, and \<^verbatim>\<open>type\<close> is always \<open>TALKER_TYPE\<close>.
\<close>

datatype outgoing =
  OutgoingMessage (o_id: nat) (o_responseToId: jsval) (o_namespace: jsval) (o_data: jsval)

datatype incoming =
  IncomingMessage (i_namespace: jsval) (i_data: jsval) (i_id: jsval)

definition toJSON :: "outgoing \<Rightarrow> jsval" where
  "toJSON m = JObj [(''id'', JNum (int (o_id m))),
                    (''responseToId'', o_responseToId m),
                    (''namespace'', o_namespace m),
                    (''data'', o_data m),
                    (''type'', JStr TALKER_TYPE)]"

subsection \<open>The channel\<close>

text \<open>A window reference: \<^verbatim>\<open>null\<close>, \<^verbatim>\<open>undefined\<close> or a window, compared by identity.\<close>

datatype winref = WNull | WUndefined | Window nat

fun truthy_window :: "winref \<Rightarrow> bool" where
  "truthy_window (Window w) = True"
| "truthy_window w = False"

text \<open>The state of the promise that a call of \<^verbatim>\<open>send\<close> returns.\<close>

datatype future = Pending | Fulfilled incoming | Rejected string

text \<open>
  \<open>remoteOrigin\<close> is \<open>None\<close> for \<^verbatim>\<open>null\<close> and \<^verbatim>\<open>undefined\<close>. \<open>u_sent\<close> holds the own properties of
  the object \<^verbatim>\<open>_sent\<close>: the key is the property name and the value names the promise that the
  stored \<^verbatim>\<open>resolve\<close> function settles. \<open>onMessage\<close> tells whether a handler is installed, and
  \<open>handshake\<close> whether the promise of that name is resolved. \<open>clock\<close> is the time in
  milliseconds, and an entry \<open>(due, k)\<close> of \<open>timers\<close> is the timer of promise \<open>k\<close>, armed by
  \<^verbatim>\<open>setTimeout\<close> and due at time \<open>due\<close>.
\<close>

record talker =
  remoteWindow :: winref
  remoteOrigin :: "string option"
  timeout :: nat
  handshaken :: bool
  handshake :: bool
  u_id :: nat
  u_queue :: "outgoing list"
  u_sent :: "string \<rightharpoonup> nat"
  onMessage :: bool
  posted :: "(jsval \<times> string) list"
  delivered :: "incoming list"
  futures :: "nat \<rightharpoonup> future"
  clock :: nat
  timers :: "(nat \<times> nat) list"

record messageEvent =
  source :: winref
  origin :: string
  data :: "jsval option"

text \<open>
  The field \<open>data\<close> of an event is the outcome of \<^verbatim>\<open>JSON.parse(messageEvent.data)\<close>: \<open>None\<close> when
  it throws, the parsed value otherwise.
\<close>

definition u_postMessage :: "talker \<Rightarrow> jsval \<Rightarrow> talker" where
  "u_postMessage t d =
     (case remoteOrigin t of
        None \<Rightarrow> t
      | Some ro \<Rightarrow>
          if truthy_window (remoteWindow t) \<and> ro \<noteq> []
          then t\<lparr>posted := posted t @ [(d, ro)]\<rparr>
          else t)"

definition handshake_message :: "bool \<Rightarrow> jsval" where
  "handshake_message confirmation =
     JObj [(''type'', JStr TALKER_TYPE),
           (if confirmation then ''handshakeConfirmation'' else ''handshake'', JBool True)]"

definition u_sendHandshake :: "talker \<Rightarrow> bool \<Rightarrow> talker" where
  "u_sendHandshake t confirmation = u_postMessage t (handshake_message confirmation)"

definition u_nextId :: "talker \<Rightarrow> nat \<times> talker" where
  "u_nextId t = (u_id t + 1, t\<lparr>u_id := u_id t + 1\<rparr>)"

text \<open>
  \<^verbatim>\<open>_flushQueue\<close>; its return value, the queue, is a field of the state returned here. An
  element of the queue is an object and so truthy: \<^verbatim>\<open>!message\<close> holds exactly when \<^verbatim>\<open>shift\<close>
  found the queue empty.
\<close>

function u_flushQueue :: "talker \<Rightarrow> talker" where
  "u_flushQueue t =
     (if handshaken t then
        (case u_queue t of
           [] \<Rightarrow> t
         | message # rest \<Rightarrow>
             (let t1 = u_postMessage (t\<lparr>u_queue := rest\<rparr>) (toJSON message)
              in if length (u_queue t1) > 0 then u_flushQueue t1 else t1))
      else t)"
  by pat_completeness auto
termination
  by (relation "measure (\<lambda>t. length (u_queue t))")
     (auto simp: u_postMessage_def split: option.splits)

declare u_flushQueue.simps [simp del]

text \<open>\<^verbatim>\<open>new Talker.OutgoingMessage(talker, namespace, data, responseToId)\<close>.\<close>

definition new_OutgoingMessage :: "talker \<Rightarrow> jsval \<Rightarrow> jsval \<Rightarrow> jsval \<Rightarrow> outgoing \<times> talker" where
  "new_OutgoingMessage t namespace d responseToId =
     (let (i, t1) = u_nextId t
      in (OutgoingMessage i (js_or responseToId JNull) namespace d, t1))"

text \<open>
  \<^verbatim>\<open>send\<close>. The promise it returns is named by the id of the message. The executor of the
  first promise of the race runs at once: it stores \<^verbatim>\<open>resolve\<close> under the message's id, a
  number, queues the message and flushes. The executor of the second one then arms the timer
  with the delay \<^verbatim>\<open>self.timeout\<close>.
\<close>

definition send :: "talker \<Rightarrow> jsval \<Rightarrow> jsval \<Rightarrow> jsval \<Rightarrow> nat \<times> talker" where
  "send t namespace d responseToId =
     (let (message, t1) = new_OutgoingMessage t namespace d responseToId;
          t2 = t1\<lparr>futures := (futures t1)(o_id message \<mapsto> Pending)\<rparr>;
          t3 = t2\<lparr>u_sent := (u_sent t2)(Number_toString (int (o_id message)) \<mapsto> o_id message)\<rparr>;
          t4 = t3\<lparr>u_queue := u_queue t3 @ [message]\<rparr>;
          t5 = u_flushQueue t4;
          t6 = t5\<lparr>timers := timers t5 @ [(clock t5 + timeout t5, o_id message)]\<rparr>
      in (o_id message, t6))"

text \<open>
  The timer callback of the call of \<^verbatim>\<open>send\<close> that returned promise \<open>k\<close>: \<^verbatim>\<open>reject\<close>, bound to
  the timeout error.
\<close>

definition timeout_fires :: "talker \<Rightarrow> nat \<Rightarrow> talker" where
  "timeout_fires t k =
     (case futures t k of
        Some Pending \<Rightarrow> t\<lparr>futures := (futures t)(k \<mapsto> Rejected TALKER_ERR_TIMEOUT)\<rparr>
      | _ \<Rightarrow> t)"

text \<open>
  The platform lets \<open>d\<close> milliseconds pass with no other event: the timers that are due by
  then run, the earliest first, and are gone.
\<close>

definition advance :: "talker \<Rightarrow> nat \<Rightarrow> talker" where
  "advance t d =
     (let now = clock t + d;
          due = filter (\<lambda>x. fst x \<le> now) (timers t);
          later = filter (\<lambda>x. \<not> fst x \<le> now) (timers t);
          t1 = fold (\<lambda>x t'. timeout_fires t' (snd x)) (sort_key fst due) t
      in t1\<lparr>clock := now, timers := later\<rparr>)"

text \<open>The \<^verbatim>\<open>resolve\<close> function of promise \<open>k\<close>: a promise settles once.\<close>

definition resolve :: "talker \<Rightarrow> nat \<Rightarrow> incoming \<Rightarrow> talker" where
  "resolve t k message =
     (case futures t k of
        Some Pending \<Rightarrow> t\<lparr>futures := (futures t)(k \<mapsto> Fulfilled message)\<rparr>
      | _ \<Rightarrow> t)"

definition u_isSafeMessage :: "talker \<Rightarrow> winref \<Rightarrow> string \<Rightarrow> jsval \<Rightarrow> bool" where
  "u_isSafeMessage t src orig type =
     (let safeSource = (src = remoteWindow t);
          safeOrigin = (remoteOrigin t = Some ''*'' \<or> Some orig = remoteOrigin t);
          safeType = (type = JStr TALKER_TYPE)
      in safeSource \<and> safeOrigin \<and> safeType)"

definition u_handleHandshake :: "talker \<Rightarrow> jsval \<Rightarrow> talker" where
  "u_handleHandshake t object =
     (let t1 = (if truthy (field object ''handshake'') then u_sendHandshake t (handshaken t) else t);
          t2 = t1\<lparr>handshaken := True\<rparr>;
          t3 = t2\<lparr>handshake := True\<rparr>
      in u_flushQueue t3)"

text \<open>
  \<^verbatim>\<open>this._sent[id]\<close> reads an own property of \<^verbatim>\<open>_sent\<close> or, \<^verbatim>\<open>_sent\<close> being an object literal, a
  property inherited from \<^verbatim>\<open>Object.prototype\<close>. Every inherited one is truthy. Called with the
  message, \<^verbatim>\<open>__proto__\<close> (an object, not a function), \<^verbatim>\<open>__defineGetter__\<close> and
  \<^verbatim>\<open>__defineSetter__\<close> (no callable second argument) throw a TypeError; the others return.
  The property key is computed first, and that can throw as well.
\<close>

definition Object_prototype :: "string list" where
  "Object_prototype =
     [''constructor'', ''toString'', ''toLocaleString'', ''valueOf'', ''hasOwnProperty'',
      ''isPrototypeOf'', ''propertyIsEnumerable'', ''__lookupGetter__'', ''__lookupSetter__'',
      ''__defineGetter__'', ''__defineSetter__'', ''__proto__'']"

definition throws_when_called :: "string list" where
  "throws_when_called = [''__defineGetter__'', ''__defineSetter__'', ''__proto__'']"

datatype property = Undefined | Resolve nat | Inherited string

definition sent_get :: "talker \<Rightarrow> string \<Rightarrow> property" where
  "sent_get t key =
     (case u_sent t key of
        Some k \<Rightarrow> Resolve k
      | None \<Rightarrow> if key \<in> set Object_prototype then Inherited key else Undefined)"

definition u_respondToMessage :: "talker \<Rightarrow> jsval \<Rightarrow> incoming \<Rightarrow> js_error + talker" where
  "u_respondToMessage t i message =
     (case ToPropertyKey i of
        Inl e \<Rightarrow> Inl e
      | Inr key \<Rightarrow>
          (case sent_get t key of
             Undefined \<Rightarrow> Inr t
           | Resolve k \<Rightarrow>
               (let t1 = resolve t k message
                in Inr (t1\<lparr>u_sent := (u_sent t1)(key := None)\<rparr>))
           | Inherited name \<Rightarrow>
               if name \<in> set throws_when_called then Inl TypeError else Inr t))"

definition u_broadcastMessage :: "talker \<Rightarrow> incoming \<Rightarrow> talker" where
  "u_broadcastMessage t message =
     (if onMessage t then t\<lparr>delivered := delivered t @ [message]\<rparr> else t)"

definition u_handleMessage :: "talker \<Rightarrow> jsval \<Rightarrow> js_error + talker" where
  "u_handleMessage t rawObject =
     (let message = IncomingMessage (field rawObject ''namespace'') (field rawObject ''data'')
                      (field rawObject ''id'');
          responseId = field rawObject ''responseToId''
      in if truthy responseId then u_respondToMessage t responseId message
         else Inr (u_broadcastMessage t message))"

text \<open>
  \<^verbatim>\<open>_receiveMessage\<close>. The first read, \<^verbatim>\<open>object.type\<close>, is the one that can throw. The return
  value (\<^verbatim>\<open>false\<close> or \<^verbatim>\<open>undefined\<close>) goes to the event listener, which drops it.
\<close>

definition u_receiveMessage :: "talker \<Rightarrow> messageEvent \<Rightarrow> js_error + talker" where
  "u_receiveMessage t messageEvent =
     (let object = (case data messageEvent of None \<Rightarrow> JObj [] | Some v \<Rightarrow> v)
      in case get_prop object ''type'' of
           Inl e \<Rightarrow> Inl e
         | Inr type \<Rightarrow>
             if \<not> u_isSafeMessage t (source messageEvent) (origin messageEvent) type then Inr t
             else
               (let isHandshake = js_or (field object ''handshake'')
                                    (field object ''handshakeConfirmation'')
                in if truthy isHandshake then Inr (u_handleHandshake t object)
                   else u_handleMessage t object))"

text \<open>
  \<^verbatim>\<open>new Talker(remoteWindow, remoteOrigin)\<close>; the listener is \<open>u_receiveMessage\<close>. Time is counted
  from the construction.
\<close>

definition Talker :: "winref \<Rightarrow> string option \<Rightarrow> talker" where
  "Talker w ro =
     u_sendHandshake
       \<lparr>remoteWindow = w, remoteOrigin = ro, timeout = 3000,
        handshaken = False, handshake = False,
        u_id = 0, u_queue = [], u_sent = Map.empty, onMessage = False,
        posted = [], delivered = [], futures = Map.empty, clock = 0, timers = []\<rparr>
       False"

text \<open>\<^verbatim>\<open>Talker.IncomingMessage.prototype.respond\<close>, on the channel that owns the message.\<close>

definition respond :: "talker \<Rightarrow> incoming \<Rightarrow> jsval \<Rightarrow> nat \<times> talker" where
  "respond t message d = send t JNull d (i_id message)"

subsection \<open>Auxiliary definitions\<close>

text \<open>The guard of \<^verbatim>\<open>_postMessage\<close>: \<^verbatim>\<open>this.remoteWindow && this.remoteOrigin\<close>.\<close>

definition configured :: "talker \<Rightarrow> bool" where
  "configured t =
     (case remoteOrigin t of None \<Rightarrow> False | Some ro \<Rightarrow> truthy_window (remoteWindow t) \<and> ro \<noteq> [])"

text \<open>What \<^verbatim>\<open>_postMessage\<close>, called on each of \<open>ds\<close> in turn, adds to the log.\<close>

definition post_entries :: "talker \<Rightarrow> jsval list \<Rightarrow> (jsval \<times> string) list" where
  "post_entries t ds =
     (case remoteOrigin t of
        None \<Rightarrow> []
      | Some ro \<Rightarrow> if truthy_window (remoteWindow t) \<and> ro \<noteq> [] then map (\<lambda>d. (d, ro)) ds else [])"

text \<open>
  The listener that the constructor registers. An exception leaves it for the platform to
  report; every place that throws does so before anything is written to the channel.
\<close>

definition listener :: "talker \<Rightarrow> messageEvent \<Rightarrow> talker" where
  "listener t messageEvent =
     (case u_receiveMessage t messageEvent of Inl e \<Rightarrow> t | Inr t' \<Rightarrow> t')"

text \<open>
  What the application and the platform do to a channel, one at a time: a send, a response, an
  inbound message, a timer callback run on its own, time passing, and the two settings. A step
  returns the ids of the Outgoing envelopes it constructed.
\<close>

datatype action =
    Send jsval jsval jsval
  | Respond incoming jsval
  | Receive messageEvent
  | TimerFires nat
  | Advance nat
  | SetOnMessage bool
  | SetTimeout nat

fun step :: "talker \<Rightarrow> action \<Rightarrow> nat list \<times> talker" where
  "step t (Send namespace d responseToId) =
     (let (k, t1) = send t namespace d responseToId in ([k], t1))"
| "step t (Respond message d) = (let (k, t1) = respond t message d in ([k], t1))"
| "step t (Receive messageEvent) = ([], listener t messageEvent)"
| "step t (TimerFires k) = ([], timeout_fires t k)"
| "step t (Advance d) = ([], advance t d)"
| "step t (SetOnMessage b) = ([], t\<lparr>onMessage := b\<rparr>)"
| "step t (SetTimeout n) = ([], t\<lparr>timeout := n\<rparr>)"

fun run :: "talker \<Rightarrow> action list \<Rightarrow> nat list \<times> talker" where
  "run t [] = ([], t)"
| "run t (a # as) =
     (let (ks, t1) = step t a; (ks', t2) = run t1 as in (ks @ ks', t2))"

text \<open>
  Calls of \<^verbatim>\<open>send\<close> in a row, and the envelopes these calls construct, in the order of the calls.
\<close>

fun send_all :: "talker \<Rightarrow> (jsval \<times> jsval \<times> jsval) list \<Rightarrow> talker" where
  "send_all t [] = t"
| "send_all t ((namespace, d, responseToId) # calls) =
     send_all (snd (send t namespace d responseToId)) calls"

fun constructed :: "talker \<Rightarrow> (jsval \<times> jsval \<times> jsval) list \<Rightarrow> outgoing list" where
  "constructed t [] = []"
| "constructed t ((namespace, d, responseToId) # calls) =
     (let (message, t1) = new_OutgoingMessage t namespace d responseToId
      in message # constructed t1 calls)"

text \<open>
  The event that reaches the listener when the remote window posts a handshake or an Outgoing
  envelope: the payload parses to the object that was serialised.
\<close>

definition handshake_event :: "winref \<Rightarrow> string \<Rightarrow> bool \<Rightarrow> messageEvent" where
  "handshake_event w orig confirmation =
     \<lparr>source = w, origin = orig, data = Some (handshake_message confirmation)\<rparr>"

definition message_event :: "winref \<Rightarrow> string \<Rightarrow> outgoing \<Rightarrow> messageEvent" where
  "message_event w orig message = \<lparr>source = w, origin = orig, data = Some (toJSON message)\<rparr>"

text \<open>
  Example states, all on the way of a channel to window 0 with the wildcard origin: the channel
  after the remote's handshake-confirmation, with a handler installed; that channel after one
  send; and 3000 milliseconds later, when the timer of that send has fired. \<open>late_response\<close> is a response to message 1
  as the remote would post it.
\<close>

definition established :: talker where
  "established =
     (listener (Talker (Window 0) (Some ''*''))
        (handshake_event (Window 0) ''https://a.example'' True))\<lparr>onMessage := True\<rparr>"

definition awaiting :: talker where
  "awaiting = snd (send established (JStr ''ns'') (JNum 5) JUndefined)"

definition timed_out :: talker where
  "timed_out = advance awaiting 3000"

definition late_response :: messageEvent where
  "late_response =
     message_event (Window 0) ''https://a.example''
       (OutgoingMessage 9 (JNum 1) JNull (JStr ''late''))"

text \<open>
  Two messages that the remote window can post: a response whose \<^verbatim>\<open>responseToId\<close> is the
  string \<^verbatim>\<open>__proto__\<close>, and one whose \<^verbatim>\<open>responseToId\<close> is an object with a property
  \<^verbatim>\<open>toString\<close>.
\<close>

definition inherited_key_response :: messageEvent where
  "inherited_key_response =
     \<lparr>source = Window 0, origin = ''https://a.example'',
      data = Some (JObj [(''type'', JStr TALKER_TYPE), (''responseToId'', JStr ''__proto__'')])\<rparr>"

definition object_key_response :: messageEvent where
  "object_key_response =
     \<lparr>source = Window 0, origin = ''https://a.example'',
      data = Some (JObj [(''type'', JStr TALKER_TYPE),
                         (''responseToId'', JObj [(''toString'', JNum 1)])])\<rparr>"

section \<open>Properties\<close>

subsection \<open>Posting, flushing and sending\<close>

lemma postMessage_eq: "u_postMessage t d = t\<lparr>posted := posted t @ post_entries t [d]\<rparr>"
  by (simp add: u_postMessage_def post_entries_def split: option.splits)

lemma post_entries_append: "post_entries t (xs @ ys) = post_entries t xs @ post_entries t ys"
  by (simp add: post_entries_def split: option.splits)

lemma post_entries_Nil [simp]: "post_entries t [] = []"
  by (simp add: post_entries_def split: option.splits)

lemma post_entries_upd [simp]:
  "post_entries (t\<lparr>u_queue := q\<rparr>) ds = post_entries t ds"
  "post_entries (t\<lparr>posted := p\<rparr>) ds = post_entries t ds"
  "post_entries (t\<lparr>handshaken := b\<rparr>) ds = post_entries t ds"
  "post_entries (t\<lparr>handshake := b\<rparr>) ds = post_entries t ds"
  "post_entries (t\<lparr>u_id := n\<rparr>) ds = post_entries t ds"
  "post_entries (t\<lparr>u_sent := s\<rparr>) ds = post_entries t ds"
  "post_entries (t\<lparr>futures := f\<rparr>) ds = post_entries t ds"
  "post_entries (t\<lparr>delivered := dl\<rparr>) ds = post_entries t ds"
  "post_entries (t\<lparr>clock := c\<rparr>) ds = post_entries t ds"
  "post_entries (t\<lparr>timers := ts\<rparr>) ds = post_entries t ds"
  by (simp_all add: post_entries_def split: option.splits)

lemma flush_pending: "\<not> handshaken t \<Longrightarrow> u_flushQueue t = t"
  by (simp add: u_flushQueue.simps)

lemma flush_established:
  "handshaken t \<Longrightarrow>
   u_flushQueue t = t\<lparr>u_queue := [], posted := posted t @ post_entries t (map toJSON (u_queue t))\<rparr>"
proof (induction "u_queue t" arbitrary: t)
  case Nil
  then show ?case by (simp add: u_flushQueue.simps [of t])
next
  case (Cons m rest)
  let ?t1 = "u_postMessage (t\<lparr>u_queue := rest\<rparr>) (toJSON m)"
  have q: "u_queue ?t1 = rest" by (simp add: postMessage_eq)
  have h: "handshaken ?t1" using Cons.prems by (simp add: postMessage_eq)
  have ih: "u_flushQueue ?t1 = ?t1\<lparr>u_queue := [], posted := posted ?t1 @ post_entries ?t1 (map toJSON (u_queue ?t1))\<rparr>"
    using Cons.hyps(1) [of ?t1] q h by simp
  have step: "u_flushQueue t = (if rest = [] then ?t1 else u_flushQueue ?t1)"
    using Cons.prems Cons.hyps(2) [symmetric] q
    by (simp add: u_flushQueue.simps [of t] Let_def)
  show ?case
  proof (cases "rest = []")
    case True
    then show ?thesis using step Cons.hyps(2) [symmetric]
      by (simp add: postMessage_eq)
  next
    case False
    have "post_entries t (toJSON m # map toJSON rest)
            = post_entries t [toJSON m] @ post_entries t (map toJSON rest)"
      using post_entries_append [of t "[toJSON m]" "map toJSON rest"] by simp
    with False show ?thesis using step ih Cons.hyps(2) [symmetric]
      by (simp add: postMessage_eq)
  qed
qed

lemma send_pending:
  "\<not> handshaken t \<Longrightarrow>
   send t ns d r =
     (u_id t + 1,
      t\<lparr>u_id := u_id t + 1,
        futures := (futures t)(u_id t + 1 \<mapsto> Pending),
        u_sent := (u_sent t)(Number_toString (int (u_id t + 1)) \<mapsto> u_id t + 1),
        u_queue := u_queue t @ [OutgoingMessage (u_id t + 1) (js_or r JNull) ns d],
        timers := timers t @ [(clock t + timeout t, u_id t + 1)]\<rparr>)"
  by (simp add: send_def new_OutgoingMessage_def u_nextId_def flush_pending)

lemma send_established:
  "handshaken t \<Longrightarrow>
   send t ns d r =
     (u_id t + 1,
      t\<lparr>u_id := u_id t + 1,
        futures := (futures t)(u_id t + 1 \<mapsto> Pending),
        u_sent := (u_sent t)(Number_toString (int (u_id t + 1)) \<mapsto> u_id t + 1),
        u_queue := [],
        posted := posted t @ post_entries t
                    (map toJSON (u_queue t @ [OutgoingMessage (u_id t + 1) (js_or r JNull) ns d])),
        timers := timers t @ [(clock t + timeout t, u_id t + 1)]\<rparr>)"
  by (simp add: send_def new_OutgoingMessage_def u_nextId_def flush_established)

lemma handleHandshake_eq:
  "u_handleHandshake t object =
     t\<lparr>handshaken := True, handshake := True, u_queue := [],
       posted := posted t @ post_entries t
         ((if truthy (field object ''handshake'') then [handshake_message (handshaken t)] else [])
          @ map toJSON (u_queue t))\<rparr>"
  by (simp add: u_handleHandshake_def u_sendHandshake_def postMessage_eq flush_established
      post_entries_append Let_def)

lemma receive_handshake:
  assumes "data ev = Some object" and "get_prop object ''type'' = Inr ty"
    and "u_isSafeMessage t (source ev) (origin ev) ty"
    and "truthy (js_or (field object ''handshake'') (field object ''handshakeConfirmation''))"
  shows "u_receiveMessage t ev = Inr (u_handleHandshake t object)"
  using assms by (simp add: u_receiveMessage_def)

lemma receive_message:
  assumes "data ev = Some object" and "get_prop object ''type'' = Inr ty"
    and "u_isSafeMessage t (source ev) (origin ev) ty"
    and "\<not> truthy (js_or (field object ''handshake'') (field object ''handshakeConfirmation''))"
  shows "u_receiveMessage t ev = u_handleMessage t object"
  using assms by (simp add: u_receiveMessage_def)

lemma receive_rejected:
  assumes "data ev = Some object" and "get_prop object ''type'' = Inr ty"
    and "\<not> u_isSafeMessage t (source ev) (origin ev) ty"
  shows "u_receiveMessage t ev = Inr t"
  using assms by (simp add: u_receiveMessage_def)

lemma field_JStr: "field object name = JStr s \<Longrightarrow> get_prop object name = Inr (JStr s)"
  by (cases "(object, name)" rule: get_prop.cases) (auto simp: field_def)

lemma safe_type: "u_isSafeMessage t src orig ty \<Longrightarrow> ty = JStr TALKER_TYPE"
  by (simp add: u_isSafeMessage_def)

lemma safe_get_prop:
  "u_isSafeMessage t src orig (field object ''type'') \<Longrightarrow>
   get_prop object ''type'' = Inr (field object ''type'')"
  using field_JStr [of object "''type''" TALKER_TYPE] safe_type [of t src orig "field object ''type''"]
  by simp

lemma postMessage_configured:
  "configured t \<longleftrightarrow> post_entries t [d] \<noteq> []"
  by (simp add: configured_def post_entries_def split: option.splits)

lemma post_entries_unconfigured: "\<not> configured t \<Longrightarrow> post_entries t ds = []"
  by (simp add: configured_def post_entries_def split: option.splits)

lemma post_entries_configured:
  "remoteOrigin t = Some ro \<Longrightarrow> configured t \<Longrightarrow> post_entries t ds = map (\<lambda>d. (d, ro)) ds"
  by (simp add: configured_def post_entries_def)

subsection \<open>Claims about the transport guard and the inbound filter\<close>

text \<open>
  Claim C9. The channel calls the transport's post operation only when both the target window
  and the accepted origin are present (non-null, non-empty); then \<^verbatim>\<open>_postMessage\<close> makes
  exactly one post, to \<open>remoteOrigin\<close>. When either is missing, \<^verbatim>\<open>_postMessage\<close>
  and \<^verbatim>\<open>_sendHandshake\<close> return the channel as it was, and neither a flush, nor the handling of a
  handshake, nor a send posts anything; none of them can fail.
\<close>

theorem C9_post_only_when_configured:
  "(posted (u_postMessage t d) \<noteq> posted t \<longrightarrow> configured t) \<and>
   (configured t \<and> remoteOrigin t = Some ro \<longrightarrow>
      u_postMessage t d = t\<lparr>posted := posted t @ [(d, ro)]\<rparr>) \<and>
   (\<not> configured t \<longrightarrow>
      u_postMessage t d = t \<and> u_sendHandshake t c = t \<and>
      posted (u_flushQueue t) = posted t \<and>
      posted (u_handleHandshake t object) = posted t \<and>
      posted (snd (send t ns x r)) = posted t)"
proof (intro conjI impI)
  assume "posted (u_postMessage t d) \<noteq> posted t"
  then show "configured t"
    by (auto simp: u_postMessage_def configured_def split: option.splits if_splits)
next
  assume "configured t \<and> remoteOrigin t = Some ro"
  then show "u_postMessage t d = t\<lparr>posted := posted t @ [(d, ro)]\<rparr>"
    by (auto simp: u_postMessage_def configured_def)
next
  assume n: "\<not> configured t"
  then show "u_postMessage t d = t"
    by (simp add: postMessage_eq post_entries_unconfigured)
  from n show "u_sendHandshake t c = t"
    by (simp add: u_sendHandshake_def postMessage_eq post_entries_unconfigured)
  from n show "posted (u_flushQueue t) = posted t"
    by (cases "handshaken t") (simp_all add: flush_pending flush_established post_entries_unconfigured)
  from n show "posted (u_handleHandshake t object) = posted t"
    by (simp add: handleHandshake_eq post_entries_unconfigured)
  from n show "posted (snd (send t ns x r)) = posted t"
    by (cases "handshaken t") (simp_all add: send_pending send_established post_entries_unconfigured)
qed

theorem C9_witness:
  "\<not> configured (Talker WNull (Some ''*'')) \<and>
   u_sendHandshake (Talker WNull (Some ''*'')) True = Talker WNull (Some ''*'') \<and>
   posted (Talker (Window 0) None) = [] \<and>
   configured (Talker (Window 0) (Some ''*'')) \<and>
   posted (u_postMessage (Talker (Window 0) (Some ''*'')) JNull)
     = [(handshake_message False, ''*''), (JNull, ''*'')]"
proof -
  have a: "\<not> configured (Talker WNull (Some ''*''))"
    by (simp add: Talker_def u_sendHandshake_def u_postMessage_def configured_def)
  have b: "configured (Talker (Window 0) (Some ''*''))"
    by (simp add: Talker_def u_sendHandshake_def u_postMessage_def configured_def)
  have c: "posted (Talker (Window 0) (Some ''*'')) = [(handshake_message False, ''*'')]"
    and d: "remoteOrigin (Talker (Window 0) (Some ''*'')) = Some ''*''"
    and e: "posted (Talker (Window 0) None) = []"
    by (simp_all add: Talker_def u_sendHandshake_def u_postMessage_def)
  note u = C9_post_only_when_configured
    [where t = "Talker WNull (Some ''*'')" and d = JNull and c = True and object = JNull
       and ns = JNull and x = JNull and r = JNull and ro = "''*''"]
  note k = C9_post_only_when_configured
    [where t = "Talker (Window 0) (Some ''*'')" and d = JNull and c = True and object = JNull
       and ns = JNull and x = JNull and r = JNull and ro = "''*''"]
  from u a have f: "u_sendHandshake (Talker WNull (Some ''*'')) True = Talker WNull (Some ''*'')"
    by blast
  from k b d have "u_postMessage (Talker (Window 0) (Some ''*'')) JNull =
      (Talker (Window 0) (Some ''*''))\<lparr>posted := posted (Talker (Window 0) (Some ''*'')) @
         [(JNull, ''*'')]\<rparr>"
    by blast
  then have g: "posted (u_postMessage (Talker (Window 0) (Some ''*'')) JNull)
      = [(handshake_message False, ''*''), (JNull, ''*'')]"
    by (simp add: c)
  show ?thesis using a b e f g by blast
qed

text \<open>
  Claim C8. When the payload of an inbound message does not parse, \<^verbatim>\<open>_receiveMessage\<close> returns
  without an error and leaves the channel, with its logs of callbacks and posts, as it was: the
  payload is replaced by the empty object, whose \<^verbatim>\<open>type\<close> is \<^verbatim>\<open>undefined\<close>, and the filter
  rejects it.
\<close>

theorem C8_unparsable_payload_ignored:
  "data ev = None \<Longrightarrow>
   u_receiveMessage t ev = Inr t \<and>
   get_prop (JObj []) ''type'' = Inr JUndefined \<and>
   \<not> u_isSafeMessage t (source ev) (origin ev) JUndefined"
  by (simp add: u_receiveMessage_def u_isSafeMessage_def)

theorem C8_witness:
  "u_receiveMessage (Talker (Window 0) (Some ''*''))
     \<lparr>source = Window 0, origin = ''https://a.example'', data = None\<rparr>
   = Inr (Talker (Window 0) (Some ''*''))"
  using C8_unparsable_payload_ignored
    [of "\<lparr>source = Window 0, origin = ''https://a.example'', data = None\<rparr>"
        "Talker (Window 0) (Some ''*'')"]
  by simp

text \<open>
  Claim C2. A message from a foreign window and a foreign origin whose payload is the JSON text
  \<^verbatim>\<open>null\<close> is not discarded silently: \<^verbatim>\<open>JSON.parse\<close> returns \<^verbatim>\<open>null\<close> without throwing, so the
  \<^verbatim>\<open>catch\<close> does not run, and reading \<^verbatim>\<open>object.type\<close> throws a TypeError out of the handler.
\<close>

theorem C2_null_payload_throws:
  "u_receiveMessage (Talker (Window 0) (Some ''https://a.example''))
     \<lparr>source = Window 7, origin = ''https://b.example'', data = Some JNull\<rparr>
   = Inl TypeError"
  by (simp add: u_receiveMessage_def)

text \<open>
  For every other payload the filter is as claimed: a message that fails one of the three
  checks leaves the channel as it was.
\<close>

lemma rejected_message_ignored:
  assumes "data ev = Some object" and "object \<noteq> JNull" and "object \<noteq> JUndefined"
    and "\<not> (source ev = remoteWindow t \<and>
             (remoteOrigin t = Some ''*'' \<or> Some (origin ev) = remoteOrigin t) \<and>
             field object ''type'' = JStr TALKER_TYPE)"
  shows "u_receiveMessage t ev = Inr t"
proof -
  obtain ty where ty: "get_prop object ''type'' = Inr ty"
    using assms(2,3) by (cases "(object, ''type'')" rule: get_prop.cases) auto
  then have "field object ''type'' = ty" by (simp add: field_def)
  with assms(4) have "\<not> u_isSafeMessage t (source ev) (origin ev) ty"
    by (auto simp: u_isSafeMessage_def)
  with assms(1) ty show ?thesis by (rule receive_rejected)
qed

subsection \<open>Timers\<close>

lemma timeout_fires_eq:
  "timeout_fires t k =
     t\<lparr>futures := (if futures t k = Some Pending
                    then (futures t)(k \<mapsto> Rejected TALKER_ERR_TIMEOUT) else futures t)\<rparr>"
  by (simp add: timeout_fires_def split: option.splits future.splits)

lemma fire_eq:
  "fold (\<lambda>x t'. timeout_fires t' (snd x)) xs t =
     t\<lparr>futures := futures (fold (\<lambda>x t'. timeout_fires t' (snd x)) xs t)\<rparr>"
proof (induction xs arbitrary: t)
  case Nil
  show ?case by simp
next
  case (Cons x xs)
  show ?case
    by (simp, subst Cons.IH, subst timeout_fires_eq, simp)
qed

lemma fire_futures:
  "futures (fold (\<lambda>x t'. timeout_fires t' (snd x)) xs t) k =
     (if k \<in> snd ` set xs \<and> futures t k = Some Pending
      then Some (Rejected TALKER_ERR_TIMEOUT) else futures t k)"
proof (induction xs arbitrary: t)
  case Nil
  show ?case by simp
next
  case (Cons x xs)
  show ?case
    by (simp add: Cons.IH) (auto simp: timeout_fires_eq)
qed

lemma advance_eq:
  "advance t d =
     t\<lparr>futures := futures (advance t d), clock := clock t + d,
       timers := filter (\<lambda>x. \<not> fst x \<le> clock t + d) (timers t)\<rparr>"
  by (simp add: advance_def Let_def) (subst fire_eq, simp)

lemma advance_futures:
  "futures (advance t d) k =
     (if (\<exists>due. (due, k) \<in> set (timers t) \<and> due \<le> clock t + d) \<and> futures t k = Some Pending
      then Some (Rejected TALKER_ERR_TIMEOUT) else futures t k)"
  by (simp add: advance_def Let_def fire_futures) force

lemma advance_fields:
  "u_id (advance t d) = u_id t" "u_sent (advance t d) = u_sent t"
  "handshaken (advance t d) = handshaken t" "handshake (advance t d) = handshake t"
  "u_queue (advance t d) = u_queue t" "posted (advance t d) = posted t"
  "delivered (advance t d) = delivered t" "onMessage (advance t d) = onMessage t"
  "remoteWindow (advance t d) = remoteWindow t" "remoteOrigin (advance t d) = remoteOrigin t"
  "timeout (advance t d) = timeout t" "clock (advance t d) = clock t + d"
  "timers (advance t d) = filter (\<lambda>x. \<not> fst x \<le> clock t + d) (timers t)"
  by (subst advance_eq, simp)+

subsection \<open>The id counter\<close>

lemma flush_id: "u_id (u_flushQueue t) = u_id t"
  by (cases "handshaken t") (simp_all add: flush_pending flush_established)

lemma send_id: "send t ns d r = (k, t') \<Longrightarrow> k = u_id t + 1 \<and> u_id t' = u_id t + 1"
  by (cases "handshaken t") (auto simp: send_pending send_established)

lemma respondToMessage_id: "u_respondToMessage t i m = Inr t' \<Longrightarrow> u_id t' = u_id t"
  by (auto simp: u_respondToMessage_def resolve_def Let_def
      split: sum.splits property.splits option.splits future.splits if_splits)

lemma handleMessage_id: "u_handleMessage t object = Inr t' \<Longrightarrow> u_id t' = u_id t"
  by (auto simp: u_handleMessage_def u_broadcastMessage_def Let_def
      dest: respondToMessage_id split: if_splits)

lemma receiveMessage_id: "u_receiveMessage t ev = Inr t' \<Longrightarrow> u_id t' = u_id t"
  by (auto simp: u_receiveMessage_def Let_def handleHandshake_eq
      dest: handleMessage_id split: sum.splits if_splits)

lemma listener_id: "u_id (listener t ev) = u_id t"
  by (auto simp: listener_def dest: receiveMessage_id split: sum.splits)

lemma timeout_fires_id: "u_id (timeout_fires t k) = u_id t"
  by (simp add: timeout_fires_def split: option.splits future.splits)

lemma step_ids:
  "step t a = (ks, t') \<Longrightarrow> ks = [u_id t + 1 ..< u_id t' + 1]"
proof (cases a)
  case (Send ns d r)
  assume s: "step t a = (ks, t')"
  obtain k t1 where e: "send t ns d r = (k, t1)" by (cases "send t ns d r")
  with s Send have "ks = [k]" "t' = t1" by simp_all
  with send_id [OF e] show ?thesis by simp
next
  case (Respond m d)
  assume s: "step t a = (ks, t')"
  obtain k t1 where e: "send t JNull d (i_id m) = (k, t1)" by (cases "send t JNull d (i_id m)")
  with s Respond have "ks = [k]" "t' = t1" by (simp_all add: respond_def)
  with send_id [OF e] show ?thesis by simp
qed (auto simp: listener_id timeout_fires_id advance_fields)

lemma step_id_mono: "step t a = (ks, t') \<Longrightarrow> u_id t \<le> u_id t'"
proof (cases a)
  case (Send ns d r)
  assume s: "step t a = (ks, t')"
  obtain k t1 where e: "send t ns d r = (k, t1)" by (cases "send t ns d r")
  with s Send have "t' = t1" by simp
  with send_id [OF e] show ?thesis by simp
next
  case (Respond m d)
  assume s: "step t a = (ks, t')"
  obtain k t1 where e: "send t JNull d (i_id m) = (k, t1)" by (cases "send t JNull d (i_id m)")
  with s Respond have "t' = t1" by (simp add: respond_def)
  with send_id [OF e] show ?thesis by simp
qed (auto simp: listener_id timeout_fires_id advance_fields)

lemma run_ids:
  "run t as = (ks, t') \<Longrightarrow> ks = [u_id t + 1 ..< u_id t' + 1] \<and> u_id t \<le> u_id t'"
proof (induction as arbitrary: t ks t')
  case Nil
  then show ?case by simp
next
  case (Cons a as)
  obtain k1 t1 where s: "step t a = (k1, t1)" by (cases "step t a")
  obtain k2 t2 where r: "run t1 as = (k2, t2)" by (cases "run t1 as")
  from Cons.prems s r have ks: "ks = k1 @ k2" and t': "t' = t2" by simp_all
  note a = step_ids [OF s] step_id_mono [OF s]
  note b = Cons.IH [OF r]
  have "[u_id t + 1 ..< u_id t1 + 1] @ [u_id t1 + 1 ..< u_id t2 + 1] = [u_id t + 1 ..< u_id t2 + 1]"
    using a(2) b upt_add_eq_append [of "u_id t + 1" "u_id t1 + 1" "u_id t2 - u_id t1"] by simp
  with a b ks t' show ?case by simp
qed

lemma Talker_id: "u_id (Talker w ro) = 0"
  by (simp add: Talker_def u_sendHandshake_def postMessage_eq)

text \<open>
  Claim C7. The id counter of a channel starts at 0 and \<^verbatim>\<open>_nextId\<close> increments it before
  handing it out; no operation on the channel decrements it. Whatever sends, responses, inbound
  messages, timer callbacks and settings happen on a channel after its construction, the ids of
  the Outgoing envelopes constructed on it are 1, 2, 3, ... in the order of construction: they
  are strictly increasing, so no two are equal.
\<close>

theorem C7_ids_unique_increasing:
  "u_id (Talker w ro) = 0 \<and>
   u_nextId t = (u_id t + 1, t\<lparr>u_id := u_id t + 1\<rparr>) \<and>
   u_id t \<le> u_id (snd (step t a)) \<and>
   fst (run (Talker w ro) as) = [1 ..< Suc (length (fst (run (Talker w ro) as)))] \<and>
   sorted_wrt (<) (fst (run (Talker w ro) as)) \<and>
   distinct (fst (run (Talker w ro) as))"
proof -
  obtain ks t' where r: "run (Talker w ro) as = (ks, t')" by (cases "run (Talker w ro) as")
  from run_ids [OF r] have ks: "ks = [1 ..< u_id t' + 1]" by (simp add: Talker_id)
  then have "length ks = u_id t'" by simp
  with ks have e: "ks = [1 ..< Suc (length ks)]" by simp
  have s: "sorted_wrt (<) ks" unfolding ks by (rule sorted_wrt_upt)
  have d: "distinct ks" unfolding ks by (rule distinct_upt)
  obtain k1 t1 where st: "step t a = (k1, t1)" by (cases "step t a")
  show ?thesis
    using e s d r step_id_mono [OF st] st by (simp add: Talker_id u_nextId_def)
qed

subsection \<open>Queueing before the handshake\<close>

lemma constructed_cong:
  "u_id t = u_id t' \<Longrightarrow> constructed t calls = constructed t' calls"
proof (induction calls arbitrary: t t')
  case Nil
  show ?case by simp
next
  case (Cons c calls)
  obtain ns d r where c: "c = (ns, d, r)" by (cases c)
  have "constructed (t\<lparr>u_id := u_id t + 1\<rparr>) calls = constructed (t'\<lparr>u_id := u_id t' + 1\<rparr>) calls"
    by (rule Cons.IH) (simp add: Cons.prems)
  then show ?case
    by (simp add: c new_OutgoingMessage_def u_nextId_def Cons.prems)
qed

lemma send_all_pending:
  "\<not> handshaken t \<Longrightarrow>
   \<not> handshaken (send_all t calls) \<and>
   posted (send_all t calls) = posted t \<and>
   remoteWindow (send_all t calls) = remoteWindow t \<and>
   remoteOrigin (send_all t calls) = remoteOrigin t \<and>
   u_queue (send_all t calls) = u_queue t @ constructed t calls"
proof (induction calls arbitrary: t)
  case Nil
  then show ?case by simp
next
  case (Cons c calls)
  obtain ns d r where c: "c = (ns, d, r)" by (cases c)
  let ?t1 = "snd (send t ns d r)"
  have h: "\<not> handshaken ?t1" using Cons.prems by (simp add: send_pending)
  have k: "constructed (snd (new_OutgoingMessage t ns d r)) calls = constructed ?t1 calls"
    using Cons.prems
    by (intro constructed_cong) (simp add: send_pending new_OutgoingMessage_def u_nextId_def)
  show ?case
    using Cons.IH [OF h] Cons.prems k
    by (simp add: c send_pending new_OutgoingMessage_def u_nextId_def)
qed

lemma post_entries_same:
  "remoteWindow t' = remoteWindow t \<Longrightarrow> remoteOrigin t' = remoteOrigin t \<Longrightarrow>
   post_entries t' ds = post_entries t ds"
  by (simp add: post_entries_def split: option.splits)

text \<open>
  Claim C1, as amended. While \<open>handshaken\<close> is false a flush changes nothing, and a sequence of
  sends posts nothing and appends the constructed envelopes to the queue in the order of the
  calls. When the handshake then completes, the queue is emptied; on a channel that has a
  target window and a non-empty origin, the posts are, after the reply to a handshake-request,
  the queued envelopes in that order, one post each. (On a channel without them the queue is
  emptied and nothing is posted: see the counterexample.)
\<close>

theorem C1_queued_until_handshake_then_fifo:
  assumes "\<not> handshaken t"
  shows "u_flushQueue t = t \<and>
         \<not> handshaken (send_all t calls) \<and>
         posted (send_all t calls) = posted t \<and>
         u_queue (send_all t calls) = u_queue t @ constructed t calls \<and>
         handshaken (u_handleHandshake (send_all t calls) object) \<and>
         u_queue (u_handleHandshake (send_all t calls) object) = [] \<and>
         (configured t \<and> remoteOrigin t = Some ro \<longrightarrow>
            posted (u_handleHandshake (send_all t calls) object) =
              posted t
              @ (if truthy (field object ''handshake'') then [(handshake_message False, ro)] else [])
              @ map (\<lambda>message. (toJSON message, ro)) (u_queue t @ constructed t calls))"
proof -
  note s = send_all_pending [OF assms, of calls]
  have p: "post_entries (send_all t calls) ds = post_entries t ds" for ds
    using s by (intro post_entries_same) simp_all
  have "configured t \<and> remoteOrigin t = Some ro \<Longrightarrow>
        post_entries t ds = map (\<lambda>d. (d, ro)) ds" for ds
    by (simp add: post_entries_configured)
  then show ?thesis
    using s assms
    by (simp add: flush_pending handleHandshake_eq p post_entries_append comp_def)
qed

lemma Talker_fields:
  "remoteWindow (Talker w ro) = w" "remoteOrigin (Talker w ro) = ro"
  "\<not> handshaken (Talker w ro)" "\<not> handshake (Talker w ro)"
  "u_queue (Talker w ro) = []" "u_sent (Talker w ro) = Map.empty"
  "\<not> onMessage (Talker w ro)" "delivered (Talker w ro) = []"
  "futures (Talker w ro) = Map.empty" "timeout (Talker w ro) = 3000"
  by (simp_all add: Talker_def u_sendHandshake_def postMessage_eq)

lemma Talker_posted:
  "posted (Talker (Window w) (Some (c # cs))) = [(handshake_message False, c # cs)]"
  "posted (Talker WNull ro) = []" "posted (Talker WUndefined ro) = []"
  "posted (Talker v None) = []" "posted (Talker v (Some [])) = []"
  by (simp_all add: Talker_def u_sendHandshake_def postMessage_eq post_entries_def
      split: option.splits)

lemma Talker_configured:
  "configured (Talker (Window w) (Some (c # cs)))"
  "\<not> configured (Talker WNull ro)"
  by (simp_all add: configured_def Talker_fields split: option.splits)

lemma handshake_message_fields:
  "field (handshake_message c) ''type'' = JStr TALKER_TYPE"
  "field (handshake_message False) ''handshake'' = JBool True"
  "field (handshake_message True) ''handshake'' = JUndefined"
  "field (handshake_message False) ''handshakeConfirmation'' = JUndefined"
  "field (handshake_message True) ''handshakeConfirmation'' = JBool True"
  by (simp_all add: handshake_message_def field_def)

lemma toJSON_fields:
  "field (toJSON m) ''type'' = JStr TALKER_TYPE"
  "field (toJSON m) ''handshake'' = JUndefined"
  "field (toJSON m) ''handshakeConfirmation'' = JUndefined"
  "field (toJSON m) ''id'' = JNum (int (o_id m))"
  "field (toJSON m) ''responseToId'' = o_responseToId m"
  "field (toJSON m) ''namespace'' = o_namespace m"
  "field (toJSON m) ''data'' = o_data m"
  by (simp_all add: toJSON_def field_def)

theorem C1_witness:
  "\<not> handshaken (Talker (Window 0) (Some ''*'')) \<and>
   posted (send_all (Talker (Window 0) (Some ''*''))
      [(JStr ''a'', JNum 5, JUndefined), (JStr ''b'', JNum 6, JUndefined)])
     = [(handshake_message False, ''*'')] \<and>
   posted (u_handleHandshake
      (send_all (Talker (Window 0) (Some ''*''))
         [(JStr ''a'', JNum 5, JUndefined), (JStr ''b'', JNum 6, JUndefined)])
      (handshake_message True))
     = [(handshake_message False, ''*''),
        (toJSON (OutgoingMessage 1 JNull (JStr ''a'') (JNum 5)), ''*''),
        (toJSON (OutgoingMessage 2 JNull (JStr ''b'') (JNum 6)), ''*'')]"
proof -
  have c: "constructed (Talker (Window 0) (Some ''*''))
             [(JStr ''a'', JNum 5, JUndefined), (JStr ''b'', JNum 6, JUndefined)]
           = [OutgoingMessage 1 JNull (JStr ''a'') (JNum 5),
              OutgoingMessage 2 JNull (JStr ''b'') (JNum 6)]"
    by (simp add: new_OutgoingMessage_def u_nextId_def Talker_id js_or_def)
  note th = C1_queued_until_handshake_then_fifo
    [where t = "Talker (Window 0) (Some ''*'')" and ro = "''*''"
       and object = "handshake_message True"
       and calls = "[(JStr ''a'', JNum 5, JUndefined), (JStr ''b'', JNum 6, JUndefined)]",
     OF Talker_fields(3)]
  show ?thesis
    using th Talker_configured(1) [of 0 "CHR ''*''" "[]"]
    by (simp add: c Talker_fields Talker_posted handshake_message_fields
          del: send_all.simps constructed.simps)
qed

theorem C1_counterexample:
  "u_queue (snd (send (Talker WNull (Some ''*'')) (JStr ''a'') (JNum 5) JUndefined))
     = [OutgoingMessage 1 JNull (JStr ''a'') (JNum 5)] \<and>
   u_receiveMessage (snd (send (Talker WNull (Some ''*'')) (JStr ''a'') (JNum 5) JUndefined))
       (handshake_event WNull ''https://a.example'' True)
     = Inr (snd (send (Talker WNull (Some ''*'')) (JStr ''a'') (JNum 5) JUndefined)
             \<lparr>handshaken := True, handshake := True, u_queue := []\<rparr>) \<and>
   posted (snd (send (Talker WNull (Some ''*'')) (JStr ''a'') (JNum 5) JUndefined)) = []"
proof -
  let ?t = "snd (send (Talker WNull (Some ''*'')) (JStr ''a'') (JNum 5) JUndefined)"
  have q: "u_queue ?t = [OutgoingMessage 1 JNull (JStr ''a'') (JNum 5)]"
    and p: "posted ?t = []" and w: "remoteWindow ?t = WNull" and o: "remoteOrigin ?t = Some ''*''"
    by (simp_all add: send_pending Talker_fields Talker_posted Talker_id js_or_def)
  have n: "post_entries ?t ds = []" for ds
    by (simp add: post_entries_def w o)
  have "u_receiveMessage ?t (handshake_event WNull ''https://a.example'' True)
        = Inr (u_handleHandshake ?t (handshake_message True))"
    by (rule receive_handshake [where ty = "JStr TALKER_TYPE"])
       (simp_all add: handshake_event_def handshake_message_fields field_JStr
          u_isSafeMessage_def w o js_or_def)
  then show ?thesis
    using q p by (simp add: handleHandshake_eq n)
qed

lemma handshaken_True_eq: "handshaken t \<Longrightarrow> t\<lparr>handshaken := True\<rparr> = t"
  by simp

lemma receive_handshake':
  assumes "data ev = Some object"
    and "u_isSafeMessage t (source ev) (origin ev) (field object ''type'')"
    and "truthy (js_or (field object ''handshake'') (field object ''handshakeConfirmation''))"
  shows "u_receiveMessage t ev = Inr (u_handleHandshake t object)"
  using assms(1) safe_get_prop [OF assms(2)] assms(2,3) by (rule receive_handshake)

text \<open>
  Claim C4, as amended. When a channel whose \<open>handshaken\<close> flag is still false receives an
  accepted handshake-request, it sets \<open>handshaken\<close>, resolves the handshake promise, empties
  the queue and sends back exactly one handshake envelope, ahead of the queued envelopes. That
  envelope is another handshake-request: \<^verbatim>\<open>_sendHandshake\<close> is called with the old value of
  \<open>handshaken\<close>, which is false, so the envelope carries the \<^verbatim>\<open>handshake\<close> flag and no
  \<^verbatim>\<open>handshakeConfirmation\<close> flag. On a channel without a target window or origin nothing is
  posted.
\<close>

theorem C4_pending_request_answered_by_request:
  assumes "data ev = Some object"
    and "u_isSafeMessage t (source ev) (origin ev) (field object ''type'')"
    and "truthy (field object ''handshake'')"
    and "\<not> handshaken t"
  shows "field (handshake_message False) ''handshakeConfirmation'' = JUndefined \<and>
         (configured t \<and> remoteOrigin t = Some ro \<longrightarrow>
            u_receiveMessage t ev =
              Inr (t\<lparr>handshaken := True, handshake := True, u_queue := [],
                     posted := posted t @ (handshake_message False, ro)
                                 # map (\<lambda>message. (toJSON message, ro)) (u_queue t)\<rparr>)) \<and>
         (\<not> configured t \<longrightarrow>
            u_receiveMessage t ev =
              Inr (t\<lparr>handshaken := True, handshake := True, u_queue := []\<rparr>))"
proof -
  have "truthy (js_or (field object ''handshake'') (field object ''handshakeConfirmation''))"
    using assms(3) by (simp add: js_or_def)
  then have r: "u_receiveMessage t ev = Inr (u_handleHandshake t object)"
    using assms(1,2) by (intro receive_handshake')
  show ?thesis
    using assms(3,4)
    by (simp add: r handleHandshake_eq handshake_message_fields post_entries_unconfigured
        post_entries_configured comp_def)
qed

theorem C4_witness:
  "u_receiveMessage (Talker (Window 0) (Some ''*'')) (handshake_event (Window 0) ''https://a.example'' False)
   = Inr (Talker (Window 0) (Some ''*'')
           \<lparr>handshaken := True, handshake := True, u_queue := [],
             posted := [(handshake_message False, ''*''), (handshake_message False, ''*'')]\<rparr>)"
  using C4_pending_request_answered_by_request
    [where t = "Talker (Window 0) (Some ''*'')" and ro = "''*''"
       and ev = "handshake_event (Window 0) ''https://a.example'' False"
       and object = "handshake_message False"]
    Talker_configured(1) [of 0 "CHR ''*''" "[]"]
  by (simp add: handshake_event_def handshake_message_fields u_isSafeMessage_def
      Talker_fields Talker_posted)

theorem C4_counterexample:
  "\<not> handshaken (Talker (Window 0) (Some ''*'')) \<and>
   posted (Talker (Window 0) (Some ''*'')) = [(handshake_message False, ''*'')] \<and>
   u_receiveMessage (Talker (Window 0) (Some ''*''))
       (handshake_event (Window 0) ''https://a.example'' False)
   = Inr (Talker (Window 0) (Some ''*'')
           \<lparr>handshaken := True, handshake := True, u_queue := [],
             posted := [(handshake_message False, ''*''), (handshake_message False, ''*'')]\<rparr>) \<and>
   handshake_message False \<noteq> handshake_message True \<and>
   field (handshake_message False) ''handshakeConfirmation'' = JUndefined"
proof -
  have "u_receiveMessage (Talker (Window 0) (Some ''*''))
          (handshake_event (Window 0) ''https://a.example'' False)
        = Inr (u_handleHandshake (Talker (Window 0) (Some ''*'')) (handshake_message False))"
    by (rule receive_handshake')
       (simp_all add: handshake_event_def handshake_message_fields u_isSafeMessage_def
          Talker_fields js_or_def)
  then show ?thesis
    by (simp add: handleHandshake_eq Talker_fields Talker_posted handshake_message_fields
        post_entries_def) (simp add: handshake_message_def)
qed

text \<open>
  Claim C5, as amended. Once \<open>handshaken\<close> is true, every further accepted inbound
  handshake message is handled without an error and leaves \<open>handshaken\<close>, the id counter, the
  pending-response table and the promises as they are; the queue is flushed. In a state
  where the handshake promise is resolved and the queue is empty (every established state a
  channel can reach, see \<open>established_queue_empty\<close>), a handshake-confirmation changes nothing
  at all, and a handshake-request has one effect: a handshake-confirmation is posted, each time
  a request arrives (on a channel without a target window or origin nothing is posted).
\<close>

theorem C5_established_handshake_handling:
  assumes "data ev = Some object"
    and "u_isSafeMessage t (source ev) (origin ev) (field object ''type'')"
    and "truthy (js_or (field object ''handshake'') (field object ''handshakeConfirmation''))"
    and "handshaken t"
  shows "u_receiveMessage t ev =
           Inr (t\<lparr>handshake := True, u_queue := [],
                  posted := posted t @ post_entries t
                    ((if truthy (field object ''handshake'') then [handshake_message True] else [])
                     @ map toJSON (u_queue t))\<rparr>) \<and>
         (handshake t \<and> u_queue t = [] \<and> \<not> truthy (field object ''handshake'') \<longrightarrow>
            u_receiveMessage t ev = Inr t) \<and>
         (handshake t \<and> u_queue t = [] \<and> truthy (field object ''handshake'') \<and>
          configured t \<and> remoteOrigin t = Some ro \<longrightarrow>
            u_receiveMessage t ev = Inr (t\<lparr>posted := posted t @ [(handshake_message True, ro)]\<rparr>)) \<and>
         (handshake t \<and> u_queue t = [] \<and> \<not> configured t \<longrightarrow> u_receiveMessage t ev = Inr t)"
proof -
  have r: "u_receiveMessage t ev = Inr (u_handleHandshake t object)"
    using assms(1,2,3) by (rule receive_handshake')
  have e: "u_handleHandshake t object =
      t\<lparr>handshake := True, u_queue := [],
        posted := posted t @ post_entries t
          ((if truthy (field object ''handshake'') then [handshake_message True] else [])
           @ map toJSON (u_queue t))\<rparr>"
    using assms(4) by (simp add: handleHandshake_eq)
  show ?thesis
    unfolding r e
    by (auto simp: post_entries_unconfigured post_entries_configured)
qed

lemma established_eq:
  "established =
     Talker (Window 0) (Some ''*'')\<lparr>handshaken := True, handshake := True, onMessage := True\<rparr>"
proof -
  have "u_receiveMessage (Talker (Window 0) (Some ''*''))
          (handshake_event (Window 0) ''https://a.example'' True)
        = Inr (u_handleHandshake (Talker (Window 0) (Some ''*'')) (handshake_message True))"
    by (rule receive_handshake')
       (simp_all add: handshake_event_def handshake_message_fields u_isSafeMessage_def
          Talker_fields js_or_def)
  then show ?thesis
    by (simp add: established_def listener_def handleHandshake_eq Talker_fields
        handshake_message_fields)
qed

lemma established_fields:
  "remoteWindow established = Window 0" "remoteOrigin established = Some ''*''"
  "handshaken established" "handshake established" "onMessage established"
  "u_queue established = []" "u_sent established = Map.empty" "u_id established = 0"
  "delivered established = []" "futures established = Map.empty"
  "posted established = [(handshake_message False, ''*'')]"
  "configured established"
  by (simp_all add: established_eq Talker_fields Talker_posted Talker_id configured_def)

theorem C5_witness:
  "u_receiveMessage established (handshake_event (Window 0) ''https://a.example'' True)
     = Inr established \<and>
   u_receiveMessage established (handshake_event (Window 0) ''https://a.example'' False)
     = Inr (established\<lparr>posted := posted established @ [(handshake_message True, ''*'')]\<rparr>)"
proof -
  have safe: "u_isSafeMessage established (Window 0) ''https://a.example'' (JStr TALKER_TYPE)"
    by (simp add: u_isSafeMessage_def established_fields)
  have c: "u_receiveMessage established (handshake_event (Window 0) ''https://a.example'' True)
        = Inr established"
    using C5_established_handshake_handling
      [where t = established and ro = "''*''"
         and ev = "handshake_event (Window 0) ''https://a.example'' True"
         and object = "handshake_message True",
       THEN conjunct2, THEN conjunct1] safe
    by (simp add: handshake_event_def handshake_message_fields established_fields js_or_def)
  have q: "u_receiveMessage established (handshake_event (Window 0) ''https://a.example'' False)
        = Inr (established\<lparr>posted := posted established @ [(handshake_message True, ''*'')]\<rparr>)"
    using C5_established_handshake_handling
      [where t = established and ro = "''*''"
         and ev = "handshake_event (Window 0) ''https://a.example'' False"
         and object = "handshake_message False",
       THEN conjunct2, THEN conjunct2, THEN conjunct1] safe
    by (simp add: handshake_event_def handshake_message_fields established_fields(1-10,12)
        js_or_def)
  from c q show ?thesis by blast
qed

theorem C5_counterexample:
  "handshaken established \<and>
   posted established = [(handshake_message False, ''*'')] \<and>
   u_receiveMessage established (handshake_event (Window 0) ''https://a.example'' False)
     = Inr (established\<lparr>posted := [(handshake_message False, ''*''),
                                      (handshake_message True, ''*'')]\<rparr>) \<and>
   u_receiveMessage
     (established\<lparr>posted := [(handshake_message False, ''*''), (handshake_message True, ''*'')]\<rparr>)
     (handshake_event (Window 0) ''https://a.example'' False)
     = Inr (established\<lparr>posted := [(handshake_message False, ''*''),
                                      (handshake_message True, ''*''),
                                      (handshake_message True, ''*'')]\<rparr>)"
proof -
  have r: "u_receiveMessage t (handshake_event (Window 0) ''https://a.example'' False)
        = Inr (u_handleHandshake t (handshake_message False))"
    if "remoteWindow t = Window 0" "remoteOrigin t = Some ''*''" for t
    by (rule receive_handshake')
       (simp_all add: handshake_event_def handshake_message_fields u_isSafeMessage_def
          that js_or_def)
  show ?thesis
    by (simp add: r handleHandshake_eq established_fields handshake_message_fields
        post_entries_def)
qed

subsection \<open>Responses, timeouts and late responses\<close>

lemma receive_response:
  assumes "data ev = Some object"
    and "u_isSafeMessage t (source ev) (origin ev) (field object ''type'')"
    and "\<not> truthy (js_or (field object ''handshake'') (field object ''handshakeConfirmation''))"
    and "truthy (field object ''responseToId'')"
    and "ToPropertyKey (field object ''responseToId'') = Inr key"
    and "u_sent t key = Some k"
  shows "u_receiveMessage t ev =
     Inr ((resolve t k (IncomingMessage (field object ''namespace'') (field object ''data'')
                          (field object ''id'')))
            \<lparr>u_sent := (u_sent t)(key := None)\<rparr>)"
proof -
  have "u_receiveMessage t ev = u_handleMessage t object"
    using assms(1) safe_get_prop [OF assms(2)] assms(2,3) by (rule receive_message)
  also have "\<dots> = Inr ((resolve t k (IncomingMessage (field object ''namespace'')
                 (field object ''data'') (field object ''id'')))
            \<lparr>u_sent := (u_sent t)(key := None)\<rparr>)"
    using assms(4,5,6)
    by (simp add: u_handleMessage_def u_respondToMessage_def sent_get_def resolve_def
        split: option.splits future.splits)
  finally show ?thesis .
qed

text \<open>
  With a key that is a string or a number and names neither an entry nor a property of
  \<^verbatim>\<open>Object.prototype\<close>, the message is dropped and the channel is as before; and whatever the
  key, without an own entry no promise is settled and \<^verbatim>\<open>onMessage\<close> is not called.
\<close>

lemma response_without_entry_dropped:
  assumes "data ev = Some object"
    and "u_isSafeMessage t (source ev) (origin ev) (field object ''type'')"
    and "\<not> truthy (js_or (field object ''handshake'') (field object ''handshakeConfirmation''))"
    and "truthy (field object ''responseToId'')"
    and "ToPropertyKey (field object ''responseToId'') = Inr key"
    and "sent_get t key = Undefined"
  shows "u_receiveMessage t ev = Inr t"
proof -
  have "u_receiveMessage t ev = u_handleMessage t object"
    using assms(1) safe_get_prop [OF assms(2)] assms(2,3) by (rule receive_message)
  also have "\<dots> = Inr t"
    using assms(4,5,6) by (simp add: u_handleMessage_def u_respondToMessage_def)
  finally show ?thesis .
qed

lemma response_without_own_entry:
  assumes "data ev = Some object"
    and "u_isSafeMessage t (source ev) (origin ev) (field object ''type'')"
    and "\<not> truthy (js_or (field object ''handshake'') (field object ''handshakeConfirmation''))"
    and "truthy (field object ''responseToId'')"
    and "\<forall>key. ToPropertyKey (field object ''responseToId'') = Inr key \<longrightarrow> u_sent t key = None"
  shows "u_receiveMessage t ev = Inr t \<or> u_receiveMessage t ev = Inl TypeError"
proof -
  have "u_receiveMessage t ev = u_handleMessage t object"
    using assms(1) safe_get_prop [OF assms(2)] assms(2,3) by (rule receive_message)
  moreover have "u_handleMessage t object = Inr t \<or> u_handleMessage t object = Inl TypeError"
    using assms(4,5)
    by (cases "ToPropertyKey (field object ''responseToId'')")
       (auto simp: u_handleMessage_def u_respondToMessage_def sent_get_def
          intro: js_error.exhaust split: if_splits)
  ultimately show ?thesis by simp
qed

text \<open>
  Claim C10. An accepted message that is no handshake and carries a truthy \<^verbatim>\<open>responseToId\<close>
  for which the pending-response table has no entry is not always dropped silently. For the key
  \<^verbatim>\<open>__proto__\<close> the table \<^verbatim>\<open>_sent\<close>, an object literal, has no own property, but
  \<^verbatim>\<open>this._sent[id]\<close> reads the inherited one, which is truthy and not a function, and calling it
  throws a TypeError out of the handler. For a \<^verbatim>\<open>responseToId\<close> that is an object with a
  property \<^verbatim>\<open>toString\<close>, computing the property key throws already.
\<close>

theorem C10_inherited_key_throws:
  "u_sent established ''__proto__'' = None \<and>
   u_receiveMessage established inherited_key_response = Inl TypeError \<and>
   u_receiveMessage established object_key_response = Inl TypeError"
proof -
  have a: "u_isSafeMessage established (Window 0) ''https://a.example'' (JStr TALKER_TYPE)"
    by (simp add: u_isSafeMessage_def established_fields)
  have "u_receiveMessage established inherited_key_response = Inl TypeError"
    using a
    by (simp add: u_receiveMessage_def inherited_key_response_def field_def js_or_def
        u_handleMessage_def u_respondToMessage_def sent_get_def established_fields
        Object_prototype_def throws_when_called_def)
  moreover have "u_receiveMessage established object_key_response = Inl TypeError"
    using a
    by (simp add: u_receiveMessage_def object_key_response_def field_def js_or_def
        u_handleMessage_def u_respondToMessage_def)
  ultimately show ?thesis by (simp add: established_fields)
qed

lemma send_eq:
  "send t ns d r =
     (u_id t + 1,
      (snd (send t ns d r)))"
  by (cases "handshaken t") (simp_all add: send_pending send_established)

lemma send_fields:
  "u_id (snd (send t ns d r)) = u_id t + 1"
  "clock (snd (send t ns d r)) = clock t"
  "timers (snd (send t ns d r)) = timers t @ [(clock t + timeout t, u_id t + 1)]"
  "futures (snd (send t ns d r)) = (futures t)(u_id t + 1 \<mapsto> Pending)"
  "u_sent (snd (send t ns d r)) = (u_sent t)(Number_toString (int (u_id t + 1)) \<mapsto> u_id t + 1)"
  by (cases "handshaken t"; simp add: send_pending send_established)+

lemma handleMessage_effect:
  assumes "u_handleMessage t object = Inr t'"
  shows "clock t' = clock t \<and> timers t' = timers t \<and> u_id t' = u_id t \<and>
         (futures t' k = futures t k \<or>
          futures t k = Some Pending \<and> (\<exists>m. futures t' k = Some (Fulfilled m)))"
  using assms
  by (auto simp: u_handleMessage_def u_broadcastMessage_def u_respondToMessage_def resolve_def
      Let_def split: if_splits sum.splits property.splits option.splits future.splits)

lemma listener_effect:
  "clock (listener t ev) = clock t \<and> timers (listener t ev) = timers t \<and>
   u_id (listener t ev) = u_id t \<and>
   (futures (listener t ev) k = futures t k \<or>
    futures t k = Some Pending \<and> (\<exists>m. futures (listener t ev) k = Some (Fulfilled m)))"
proof (cases "u_receiveMessage t ev")
  case (Inl e)
  then show ?thesis by (simp add: listener_def)
next
  case (Inr t')
  then have l: "listener t ev = t'" by (simp add: listener_def)
  from Inr have "t' = t \<or> (\<exists>object. t' = u_handleHandshake t object)
      \<or> (\<exists>object. u_handleMessage t object = Inr t')"
    by (auto simp: u_receiveMessage_def Let_def split: sum.splits if_splits)
  then show ?thesis
    unfolding l using handleMessage_effect [of t _ t' k]
    by (auto simp: handleHandshake_eq)
qed

lemma step_timer_inv:
  assumes "k \<le> u_id t"
    and "futures t k = Some Pending \<and> (due, k) \<in> set (timers t) \<and> clock t \<le> due
         \<or> (\<exists>m. futures t k = Some (Fulfilled m))
         \<or> futures t k = Some (Rejected TALKER_ERR_TIMEOUT)"
  shows "k \<le> u_id (snd (step t a)) \<and>
         (futures (snd (step t a)) k = Some Pending \<and> (due, k) \<in> set (timers (snd (step t a)))
            \<and> clock (snd (step t a)) \<le> due
          \<or> (\<exists>m. futures (snd (step t a)) k = Some (Fulfilled m))
          \<or> futures (snd (step t a)) k = Some (Rejected TALKER_ERR_TIMEOUT))"
proof (cases a)
  case (Send ns d r)
  then show ?thesis using assms by (auto simp: split_beta send_fields)
next
  case (Respond m d)
  then show ?thesis using assms by (auto simp: split_beta respond_def send_fields)
next
  case (Receive ev)
  then show ?thesis using assms listener_effect [of t ev k] by auto
next
  case (TimerFires k')
  then show ?thesis using assms by (auto simp: timeout_fires_eq)
next
  case (Advance d)
  then show ?thesis using assms
    by (auto simp: advance_fields advance_futures)
qed (use assms in auto)

lemma run_timer_inv:
  assumes "k \<le> u_id t"
    and "futures t k = Some Pending \<and> (due, k) \<in> set (timers t) \<and> clock t \<le> due
         \<or> (\<exists>m. futures t k = Some (Fulfilled m))
         \<or> futures t k = Some (Rejected TALKER_ERR_TIMEOUT)"
  shows "futures (snd (run t as)) k = Some Pending \<and> clock (snd (run t as)) \<le> due
          \<or> (\<exists>m. futures (snd (run t as)) k = Some (Fulfilled m))
          \<or> futures (snd (run t as)) k = Some (Rejected TALKER_ERR_TIMEOUT)"
  using assms
proof (induction as arbitrary: t)
  case Nil
  then show ?case by auto
next
  case (Cons a as)
  have e: "snd (run t (a # as)) = snd (run (snd (step t a)) as)"
    by (simp add: split_beta)
  note s = step_timer_inv [OF Cons.prems, of a]
  show ?case
    unfolding e using s by (intro Cons.IH) blast+
qed

lemma step_timer_ids:
  assumes "\<forall>x\<in>set (timers t). snd x \<le> u_id t"
  shows "\<forall>x\<in>set (timers (snd (step t a))). snd x \<le> u_id (snd (step t a))"
proof (cases a)
  case (Send ns d r)
  then show ?thesis using assms by (auto simp: split_beta send_fields)
next
  case (Respond m d)
  then show ?thesis using assms by (auto simp: split_beta respond_def send_fields)
next
  case (Receive ev)
  then show ?thesis using assms listener_effect [of t ev 0] by auto
next
  case (TimerFires k')
  then show ?thesis using assms by (auto simp: timeout_fires_eq)
next
  case (Advance d)
  then show ?thesis using assms by (auto simp: advance_fields)
qed (use assms in auto)

lemma reachable_timer_ids:
  "\<forall>x\<in>set (timers (snd (run (Talker w ro) as))). snd x \<le> u_id (snd (run (Talker w ro) as))"
proof -
  have "(\<forall>x\<in>set (timers t). snd x \<le> u_id t) \<Longrightarrow>
        \<forall>x\<in>set (timers (snd (run t as))). snd x \<le> u_id (snd (run t as))" for t
  proof (induction as arbitrary: t)
    case Nil
    then show ?case by simp
  next
    case (Cons a as)
    have e: "snd (run t (a # as)) = snd (run (snd (step t a)) as)"
      by (simp add: split_beta)
    show ?case unfolding e by (intro Cons.IH step_timer_ids Cons.prems)
  qed
  moreover have "timers (Talker w ro) = []"
    by (simp add: Talker_def u_sendHandshake_def postMessage_eq)
  ultimately show ?thesis by simp
qed

text \<open>
  Claim C3, as amended. A send registers a pending promise, an entry for its id in \<^verbatim>\<open>_sent\<close>,
  and a timer due \<open>timeout\<close> milliseconds later. If no matching response is dispatched within
  that time, the promise fails with the timeout error: it is still pending before the time
  is up on a channel whose timers belong to earlier sends (every channel, see
  \<open>reachable_timer_ids\<close>), it is rejected when exactly that time has passed with no other
  event, and, whatever happens on the channel in between, once the time is past the promise is
  either fulfilled by a response or rejected with the timeout error. The passing of time leaves
  \<^verbatim>\<open>_sent\<close> as it is: the entry of the timed-out send stays. An accepted response for that id
  that arrives afterwards finds the entry, calls the stale resolver, which does nothing to the
  rejected promise, and removes the entry; it is not handed to \<^verbatim>\<open>onMessage\<close>.
\<close>

theorem C3_timeout_rejects_entry_stays:
  assumes "s = snd (send t ns d r)" and "k = u_id t + 1"
  shows "fst (send t ns d r) = k \<and>
         futures s k = Some Pending \<and>
         u_sent s (Number_toString (int k)) = Some k \<and>
         timers s = timers t @ [(clock t + timeout t, k)] \<and>
         clock s = clock t \<and>
         futures (advance s (timeout t)) k = Some (Rejected TALKER_ERR_TIMEOUT) \<and>
         ((\<forall>x\<in>set (timers t). snd x \<le> u_id t) \<and> e < timeout t \<longrightarrow>
            futures (advance s e) k = Some Pending) \<and>
         (clock t + timeout t < clock (snd (run s as)) \<longrightarrow>
            (\<exists>m. futures (snd (run s as)) k = Some (Fulfilled m)) \<or>
            futures (snd (run s as)) k = Some (Rejected TALKER_ERR_TIMEOUT)) \<and>
         u_sent (advance t' e') = u_sent t' \<and>
         (data ev = Some object \<and>
          u_isSafeMessage t' (source ev) (origin ev) (field object ''type'') \<and>
          \<not> truthy (js_or (field object ''handshake'') (field object ''handshakeConfirmation'')) \<and>
          truthy (field object ''responseToId'') \<and>
          ToPropertyKey (field object ''responseToId'') = Inr key \<and>
          u_sent t' key = Some k' \<and>
          futures t' k' = Some (Rejected x) \<longrightarrow>
            u_receiveMessage t' ev = Inr (t'\<lparr>u_sent := (u_sent t')(key := None)\<rparr>))"
proof (intro conjI impI)
  show "fst (send t ns d r) = k" using send_eq [of t ns d r] assms(2) by (metis fst_conv)
  show "futures s k = Some Pending" by (simp add: assms send_fields)
  show "u_sent s (Number_toString (int k)) = Some k" by (simp add: assms send_fields)
  show "timers s = timers t @ [(clock t + timeout t, k)]" by (simp add: assms send_fields)
  show "clock s = clock t" by (simp add: assms send_fields)
  show "futures (advance s (timeout t)) k = Some (Rejected TALKER_ERR_TIMEOUT)"
    by (auto simp: advance_futures assms send_fields)
  show "u_sent (advance t' e') = u_sent t'" by (simp add: advance_fields)
next
  assume "(\<forall>x\<in>set (timers t). snd x \<le> u_id t) \<and> e < timeout t"
  then show "futures (advance s e) k = Some Pending"
    by (auto simp: advance_futures assms send_fields)
next
  assume late: "clock t + timeout t < clock (snd (run s as))"
  have "futures (snd (run s as)) k = Some Pending \<and> clock (snd (run s as)) \<le> clock t + timeout t
          \<or> (\<exists>m. futures (snd (run s as)) k = Some (Fulfilled m))
          \<or> futures (snd (run s as)) k = Some (Rejected TALKER_ERR_TIMEOUT)"
    by (rule run_timer_inv) (simp_all add: assms send_fields)
  with late show "(\<exists>m. futures (snd (run s as)) k = Some (Fulfilled m)) \<or>
            futures (snd (run s as)) k = Some (Rejected TALKER_ERR_TIMEOUT)"
    by auto
next
  assume a: "data ev = Some object \<and>
          u_isSafeMessage t' (source ev) (origin ev) (field object ''type'') \<and>
          \<not> truthy (js_or (field object ''handshake'') (field object ''handshakeConfirmation'')) \<and>
          truthy (field object ''responseToId'') \<and>
          ToPropertyKey (field object ''responseToId'') = Inr key \<and>
          u_sent t' key = Some k' \<and>
          futures t' k' = Some (Rejected x)"
  then have "resolve t' k' m = t'" for m by (simp add: resolve_def)
  with a show "u_receiveMessage t' ev = Inr (t'\<lparr>u_sent := (u_sent t')(key := None)\<rparr>)"
    using receive_response [of ev object t' key k'] by simp
qed

lemma established_time:
  "clock established = 0" "timers established = []" "timeout established = 3000"
  by (simp_all add: established_eq Talker_def u_sendHandshake_def postMessage_eq)

lemma key_1: "Number_toString 1 = ''1''"
  by code_simp

lemma awaiting_eq:
  "awaiting =
     established\<lparr>u_id := 1, futures := [1 \<mapsto> Pending], u_sent := [''1'' \<mapsto> 1],
       posted := [(handshake_message False, ''*''),
                  (toJSON (OutgoingMessage 1 JNull (JStr ''ns'') (JNum 5)), ''*'')],
       timers := [(3000, 1)]\<rparr>"
  by (simp add: awaiting_def send_established established_fields established_time key_1
      js_or_def post_entries_def)

lemma timed_out_eq:
  "timed_out =
     established\<lparr>u_id := 1, futures := [1 \<mapsto> Rejected ''timeout''], u_sent := [''1'' \<mapsto> 1],
       posted := [(handshake_message False, ''*''),
                  (toJSON (OutgoingMessage 1 JNull (JStr ''ns'') (JNum 5)), ''*'')],
       clock := 3000, timers := []\<rparr>"
  by (simp add: timed_out_def awaiting_eq advance_def established_time timeout_fires_def
      TALKER_ERR_TIMEOUT_def)

lemma late_response_accepted:
  "data late_response = Some (toJSON (OutgoingMessage 9 (JNum 1) JNull (JStr ''late'')))"
  "u_isSafeMessage timed_out (source late_response) (origin late_response) (JStr TALKER_TYPE)"
  by (simp_all add: late_response_def message_event_def u_isSafeMessage_def timed_out_eq
      established_fields)

theorem C3_counterexample:
  "timers awaiting = [(3000, 1)] \<and>
   timed_out = advance awaiting 3000 \<and>
   futures timed_out 1 = Some (Rejected ''timeout'') \<and>
   u_sent timed_out ''1'' = Some 1 \<and>
   onMessage timed_out \<and>
   delivered timed_out = [] \<and>
   u_receiveMessage timed_out late_response = Inr (timed_out\<lparr>u_sent := Map.empty\<rparr>) \<and>
   delivered (timed_out\<lparr>u_sent := Map.empty\<rparr>) = [] \<and>
   futures (timed_out\<lparr>u_sent := Map.empty\<rparr>) 1 = Some (Rejected ''timeout'')"
proof -
  have "u_receiveMessage timed_out late_response =
      Inr ((resolve timed_out 1 (IncomingMessage JNull (JStr ''late'') (JNum 9)))
             \<lparr>u_sent := (u_sent timed_out)(''1'' := None)\<rparr>)"
    using receive_response
      [of late_response "toJSON (OutgoingMessage 9 (JNum 1) JNull (JStr ''late''))" timed_out
          "''1''" 1]
      late_response_accepted
    by (simp add: toJSON_fields js_or_def key_1) (simp add: timed_out_eq)
  moreover have "resolve timed_out 1 m = timed_out" for m
    by (simp add: resolve_def timed_out_eq)
  moreover have "timers awaiting = [(3000, 1)]" by (simp add: awaiting_eq)
  ultimately show ?thesis
    by (simp add: timed_out_eq established_fields) (simp add: timed_out_def [symmetric] timed_out_eq)
qed

theorem C3_witness:
  "futures awaiting 1 = Some Pending \<and>
   timers awaiting = [(3000, 1)] \<and>
   futures (advance awaiting 2999) 1 = Some Pending \<and>
   futures (advance awaiting 3000) 1 = Some (Rejected TALKER_ERR_TIMEOUT) \<and>
   3000 < clock (snd (run awaiting [Advance 3001])) \<and>
   futures (snd (run awaiting [Advance 3001])) 1 = Some (Rejected TALKER_ERR_TIMEOUT) \<and>
   u_receiveMessage timed_out late_response =
     Inr (timed_out\<lparr>u_sent := (u_sent timed_out)(''1'' := None)\<rparr>)"
proof -
  note th = C3_timeout_rejects_entry_stays
    [where t = established and ns = "JStr ''ns''" and d = "JNum 5" and r = JUndefined
       and s = awaiting and k = 1 and e = 2999 and as = "[Advance 3001]"
       and t' = timed_out and e' = 0 and ev = late_response
       and object = "toJSON (OutgoingMessage 9 (JNum 1) JNull (JStr ''late''))"
       and key = "''1''" and k' = 1 and x = "''timeout''"]
  have a: "awaiting = snd (send established (JStr ''ns'') (JNum 5) JUndefined)"
    by (simp add: awaiting_def)
  have b: "(1::nat) = u_id established + 1" by (simp add: established_fields)
  note th' = th [OF a b]
  have c: "clock (snd (run awaiting [Advance 3001])) = 3001"
    by (simp add: advance_fields awaiting_eq established_time)
  have p: "futures awaiting 1 = Some Pending"
    using th' by blast
  have q: "timers awaiting = [(3000, 1)]"
    using th' [THEN conjunct2, THEN conjunct2, THEN conjunct2, THEN conjunct1]
    by (simp add: established_time)
  have u: "futures (advance awaiting 2999) 1 = Some Pending"
    using th' [THEN conjunct2, THEN conjunct2, THEN conjunct2, THEN conjunct2, THEN conjunct2,
        THEN conjunct2, THEN conjunct1]
    by (simp add: established_time)
  have v: "futures (advance awaiting 3000) 1 = Some (Rejected TALKER_ERR_TIMEOUT)"
    using th' [THEN conjunct2, THEN conjunct2, THEN conjunct2, THEN conjunct2, THEN conjunct2,
        THEN conjunct1]
    by (simp add: established_time)
  have "(\<exists>m. futures (snd (run awaiting [Advance 3001])) 1 = Some (Fulfilled m)) \<or>
        futures (snd (run awaiting [Advance 3001])) 1 = Some (Rejected TALKER_ERR_TIMEOUT)"
    using th' [THEN conjunct2, THEN conjunct2, THEN conjunct2, THEN conjunct2, THEN conjunct2,
        THEN conjunct2, THEN conjunct2, THEN conjunct1] c
    by (simp add: established_time)
  moreover have "futures (snd (run awaiting [Advance 3001])) 1 \<noteq> Some (Fulfilled m)" for m
    by (simp add: advance_futures awaiting_eq)
  ultimately have w: "futures (snd (run awaiting [Advance 3001])) 1
      = Some (Rejected TALKER_ERR_TIMEOUT)" by blast
  have l: "u_receiveMessage timed_out late_response =
     Inr (timed_out\<lparr>u_sent := (u_sent timed_out)(''1'' := None)\<rparr>)"
    using th' [THEN conjunct2, THEN conjunct2, THEN conjunct2, THEN conjunct2, THEN conjunct2,
        THEN conjunct2, THEN conjunct2, THEN conjunct2, THEN conjunct2]
      late_response_accepted
    by (simp add: toJSON_fields js_or_def key_1) (simp add: timed_out_eq)
  from p q u v w l c show ?thesis by simp
qed

text \<open>
  Claim C6, as amended. \<^verbatim>\<open>respond(data)\<close> on an Incoming envelope is \<^verbatim>\<open>send(null, data, id)\<close> on
  the owning channel. When the envelope's id \<open>k\<close> is truthy (as every id that a channel assigns
  is, the counter starting at 1), the Outgoing envelope produced has \<open>responseToId = k\<close> and a
  null namespace; when it is falsy (\<^verbatim>\<open>undefined\<close>, \<^verbatim>\<open>null\<close>, \<^verbatim>\<open>false\<close>, 0 or the empty string),
  the envelope has \<open>responseToId\<close> null. Either way it is queued before the handshake and
  posted after it. When the original sender receives a response to \<open>k\<close>, accepted, while its
  entry for \<open>k\<close> is in \<^verbatim>\<open>_sent\<close> and the promise is pending, the promise is fulfilled with the
  Incoming envelope built from it, the entry is removed, and \<^verbatim>\<open>onMessage\<close> is not called.
\<close>

theorem C6_respond_correlates:
  "respond t m d = send t JNull d (i_id m) \<and>
   (truthy (i_id m) \<longrightarrow>
      fst (new_OutgoingMessage t JNull d (i_id m))
        = OutgoingMessage (u_id t + 1) (i_id m) JNull d \<and>
      (\<not> handshaken t \<longrightarrow>
         u_queue (snd (respond t m d))
           = u_queue t @ [OutgoingMessage (u_id t + 1) (i_id m) JNull d]) \<and>
      (handshaken t \<longrightarrow>
         posted (snd (respond t m d))
           = posted t @ post_entries t
               (map toJSON (u_queue t @ [OutgoingMessage (u_id t + 1) (i_id m) JNull d])))) \<and>
   (\<not> truthy (i_id m) \<longrightarrow>
      fst (new_OutgoingMessage t JNull d (i_id m))
        = OutgoingMessage (u_id t + 1) JNull JNull d \<and>
      (\<not> handshaken t \<longrightarrow>
         u_queue (snd (respond t m d))
           = u_queue t @ [OutgoingMessage (u_id t + 1) JNull JNull d]) \<and>
      (handshaken t \<longrightarrow>
         posted (snd (respond t m d))
           = posted t @ post_entries t
               (map toJSON (u_queue t @ [OutgoingMessage (u_id t + 1) JNull JNull d])))) \<and>
   (\<not> truthy (i_id m) \<longleftrightarrow>
      i_id m = JUndefined \<or> i_id m = JNull \<or> i_id m = JBool False \<or> i_id m = JNum 0
      \<or> i_id m = JStr []) \<and>
   (source ev = remoteWindow s \<and>
    (remoteOrigin s = Some ''*'' \<or> Some (origin ev) = remoteOrigin s) \<and>
    data ev = Some (toJSON response) \<and>
    o_responseToId response = JNum (int k) \<and> 0 < k \<and>
    u_sent s (Number_toString (int k)) = Some k \<and>
    futures s k = Some Pending \<longrightarrow>
      u_receiveMessage s ev =
        Inr (s\<lparr>futures := (futures s)(k \<mapsto> Fulfilled
                     (IncomingMessage (o_namespace response) (o_data response)
                        (JNum (int (o_id response))))),
               u_sent := (u_sent s)(Number_toString (int k) := None)\<rparr>))"
proof (intro conjI impI)
  show "respond t m d = send t JNull d (i_id m)" by (simp add: respond_def)
  show "(\<not> truthy (i_id m)) =
      (i_id m = JUndefined \<or> i_id m = JNull \<or> i_id m = JBool False \<or> i_id m = JNum 0
       \<or> i_id m = JStr [])"
    by (cases "i_id m") auto
next
  assume "truthy (i_id m)"
  then show "fst (new_OutgoingMessage t JNull d (i_id m))
        = OutgoingMessage (u_id t + 1) (i_id m) JNull d"
    by (simp add: new_OutgoingMessage_def u_nextId_def js_or_def)
next
  assume "truthy (i_id m)" "\<not> handshaken t"
  then show "u_queue (snd (respond t m d))
           = u_queue t @ [OutgoingMessage (u_id t + 1) (i_id m) JNull d]"
    by (simp add: respond_def send_pending js_or_def)
next
  assume "truthy (i_id m)" "handshaken t"
  then show "posted (snd (respond t m d))
           = posted t @ post_entries t
               (map toJSON (u_queue t @ [OutgoingMessage (u_id t + 1) (i_id m) JNull d]))"
    by (simp add: respond_def send_established js_or_def)
next
  assume "\<not> truthy (i_id m)"
  then show "fst (new_OutgoingMessage t JNull d (i_id m))
        = OutgoingMessage (u_id t + 1) JNull JNull d"
    by (simp add: new_OutgoingMessage_def u_nextId_def js_or_def)
next
  assume "\<not> truthy (i_id m)" "\<not> handshaken t"
  then show "u_queue (snd (respond t m d))
           = u_queue t @ [OutgoingMessage (u_id t + 1) JNull JNull d]"
    by (simp add: respond_def send_pending js_or_def)
next
  assume "\<not> truthy (i_id m)" "handshaken t"
  then show "posted (snd (respond t m d))
           = posted t @ post_entries t
               (map toJSON (u_queue t @ [OutgoingMessage (u_id t + 1) JNull JNull d]))"
    by (simp add: respond_def send_established js_or_def)
next
  assume a: "source ev = remoteWindow s \<and>
    (remoteOrigin s = Some ''*'' \<or> Some (origin ev) = remoteOrigin s) \<and>
    data ev = Some (toJSON response) \<and>
    o_responseToId response = JNum (int k) \<and> 0 < k \<and>
    u_sent s (Number_toString (int k)) = Some k \<and>
    futures s k = Some Pending"
  then have safe: "u_isSafeMessage s (source ev) (origin ev) (field (toJSON response) ''type'')"
    by (auto simp: u_isSafeMessage_def toJSON_fields)
  have "u_receiveMessage s ev =
     Inr ((resolve s k (IncomingMessage (field (toJSON response) ''namespace'')
             (field (toJSON response) ''data'') (field (toJSON response) ''id'')))
            \<lparr>u_sent := (u_sent s)(Number_toString (int k) := None)\<rparr>)"
    using a safe by (intro receive_response) (simp_all add: toJSON_fields js_or_def)
  with a show "u_receiveMessage s ev =
        Inr (s\<lparr>futures := (futures s)(k \<mapsto> Fulfilled
                     (IncomingMessage (o_namespace response) (o_data response)
                        (JNum (int (o_id response))))),
               u_sent := (u_sent s)(Number_toString (int k) := None)\<rparr>)"
    by (simp add: toJSON_fields resolve_def)
qed

theorem C6_counterexample:
  "i_id (IncomingMessage (JStr ''ns'') JNull (JNum 0)) = JNum 0 \<and>
   fst (new_OutgoingMessage established JNull (JStr ''re'') (JNum 0))
     = OutgoingMessage 1 JNull JNull (JStr ''re'') \<and>
   posted (snd (respond established (IncomingMessage (JStr ''ns'') JNull (JNum 0)) (JStr ''re'')))
     = [(handshake_message False, ''*''),
        (toJSON (OutgoingMessage 1 JNull JNull (JStr ''re'')), ''*'')] \<and>
   o_responseToId (OutgoingMessage 1 JNull JNull (JStr ''re'')) \<noteq> JNum 0"
  by (simp add: respond_def send_established established_fields new_OutgoingMessage_def
      u_nextId_def js_or_def post_entries_def)

theorem C6_witness:
  "posted (snd (respond established (IncomingMessage (JStr ''ns'') (JNum 5) (JNum 1)) (JStr ''re'')))
     = [(handshake_message False, ''*''),
        (toJSON (OutgoingMessage 1 (JNum 1) JNull (JStr ''re'')), ''*'')] \<and>
   posted (snd (respond established (IncomingMessage (JStr ''ns'') (JNum 5) (JStr [])) (JStr ''re'')))
     = [(handshake_message False, ''*''),
        (toJSON (OutgoingMessage 1 JNull JNull (JStr ''re'')), ''*'')] \<and>
   u_receiveMessage awaiting
       (message_event (Window 0) ''https://a.example''
          (OutgoingMessage 1 (JNum 1) JNull (JStr ''re'')))
     = Inr (awaiting\<lparr>futures := [1 \<mapsto> Fulfilled (IncomingMessage JNull (JStr ''re'') (JNum 1))],
              u_sent := Map.empty\<rparr>)"
proof -
  note th = C6_respond_correlates
    [where t = established and m = "IncomingMessage (JStr ''ns'') (JNum 5) (JNum 1)"
       and d = "JStr ''re''" and s = awaiting and k = 1
       and response = "OutgoingMessage 1 (JNum 1) JNull (JStr ''re'')"
       and ev = "message_event (Window 0) ''https://a.example''
                   (OutgoingMessage 1 (JNum 1) JNull (JStr ''re''))"]
  note th0 = C6_respond_correlates
    [where t = established and m = "IncomingMessage (JStr ''ns'') (JNum 5) (JStr [])"
       and d = "JStr ''re''"]
  have a: "posted (snd (respond established (IncomingMessage (JStr ''ns'') (JNum 5) (JNum 1))
                     (JStr ''re'')))
      = [(handshake_message False, ''*''),
         (toJSON (OutgoingMessage 1 (JNum 1) JNull (JStr ''re'')), ''*'')]"
    using th [THEN conjunct2, THEN conjunct1]
    by (simp add: established_fields post_entries_def)
  have z: "posted (snd (respond established (IncomingMessage (JStr ''ns'') (JNum 5) (JStr []))
                     (JStr ''re'')))
      = [(handshake_message False, ''*''),
         (toJSON (OutgoingMessage 1 JNull JNull (JStr ''re'')), ''*'')]"
    using th0 [THEN conjunct2, THEN conjunct2, THEN conjunct1]
    by (simp add: established_fields post_entries_def)
  have b: "u_receiveMessage awaiting
       (message_event (Window 0) ''https://a.example''
          (OutgoingMessage 1 (JNum 1) JNull (JStr ''re'')))
     = Inr (awaiting\<lparr>futures := [1 \<mapsto> Fulfilled (IncomingMessage JNull (JStr ''re'') (JNum 1))],
              u_sent := Map.empty\<rparr>)"
    using th [THEN conjunct2, THEN conjunct2, THEN conjunct2, THEN conjunct2]
    by (simp add: message_event_def key_1) (simp add: awaiting_eq established_fields)
  from a z b show ?thesis by blast
qed

theorem C7_witness:
  "fst (run (Talker (Window 0) (Some ''*''))
          [Send (JStr ''a'') JNull JUndefined,
           Receive (handshake_event (Window 0) ''https://a.example'' True),
           Send (JStr ''b'') JNull JUndefined,
           Respond (IncomingMessage JNull JNull (JNum 4)) JNull])
   = [1, 2, 3]"
proof -
  let ?r = "run (Talker (Window 0) (Some ''*''))
          [Send (JStr ''a'') JNull JUndefined,
           Receive (handshake_event (Window 0) ''https://a.example'' True),
           Send (JStr ''b'') JNull JUndefined,
           Respond (IncomingMessage JNull JNull (JNum 4)) JNull]"
  have "length (fst ?r) = 3" by (simp add: split_beta)
  moreover have "[1 ..< Suc 3] = [1, 2, 3::nat]" by code_simp
  ultimately show ?thesis
    using C7_ids_unique_increasing
      [where w = "Window 0" and ro = "Some ''*''"
         and as = "[Send (JStr ''a'') JNull JUndefined,
           Receive (handshake_event (Window 0) ''https://a.example'' True),
           Send (JStr ''b'') JNull JUndefined,
           Respond (IncomingMessage JNull JNull (JNum 4)) JNull]"]
    by (simp del: run.simps)
qed

lemma handleMessage_keeps:
  "u_handleMessage t object = Inr t' \<Longrightarrow>
   handshaken t' = handshaken t \<and> handshake t' = handshake t \<and> u_queue t' = u_queue t"
  by (auto simp: u_handleMessage_def u_broadcastMessage_def u_respondToMessage_def resolve_def
      Let_def split: if_splits sum.splits property.splits option.splits future.splits)

lemma listener_inv:
  assumes "handshaken t \<longrightarrow> handshake t \<and> u_queue t = []"
  shows "handshaken (listener t ev) \<longrightarrow> handshake (listener t ev) \<and> u_queue (listener t ev) = []"
proof (cases "u_receiveMessage t ev")
  case (Inl e)
  then show ?thesis using assms by (simp add: listener_def)
next
  case (Inr t')
  then have l: "listener t ev = t'" by (simp add: listener_def)
  from Inr have "t' = t \<or> (\<exists>object. t' = u_handleHandshake t object)
      \<or> (\<exists>object. u_handleMessage t object = Inr t')"
    by (auto simp: u_receiveMessage_def Let_def split: sum.splits if_splits)
  then show ?thesis
    using assms handleMessage_keeps [of t _ t'] unfolding l
    by (auto simp: handleHandshake_eq)
qed

lemma step_inv:
  assumes "handshaken t \<longrightarrow> handshake t \<and> u_queue t = []"
  shows "handshaken (snd (step t a)) \<longrightarrow>
         handshake (snd (step t a)) \<and> u_queue (snd (step t a)) = []"
proof (cases a)
  case (Send ns d r)
  then show ?thesis using assms
    by (cases "handshaken t") (simp_all add: split_beta send_pending send_established)
next
  case (Respond m d)
  then show ?thesis using assms
    by (cases "handshaken t") (simp_all add: split_beta respond_def send_pending send_established)
next
  case (Receive ev)
  then show ?thesis using listener_inv [OF assms, of ev] by simp
next
  case (TimerFires k)
  then show ?thesis using assms
    by (simp add: timeout_fires_def split: option.splits future.splits)
next
  case (Advance d)
  then show ?thesis using assms by (simp add: advance_fields)
qed (use assms in simp_all)

lemma run_inv:
  assumes "handshaken t \<longrightarrow> handshake t \<and> u_queue t = []"
  shows "handshaken (snd (run t as)) \<longrightarrow>
         handshake (snd (run t as)) \<and> u_queue (snd (run t as)) = []"
  using assms
proof (induction as arbitrary: t)
  case Nil
  then show ?case by simp
next
  case (Cons a as)
  have "snd (run t (a # as)) = snd (run (snd (step t a)) as)"
    by (simp add: split_beta)
  with Cons.IH [OF step_inv [OF Cons.prems, of a]] show ?case by simp
qed

lemma established_queue_empty:
  "handshaken (snd (run (Talker w ro) as)) \<Longrightarrow>
   handshake (snd (run (Talker w ro) as)) \<and> u_queue (snd (run (Talker w ro) as)) = []"
  using run_inv [of "Talker w ro" as] by (simp add: Talker_fields)

end
